theory Spec2Isabelle
  imports Complex_Main "HOL-Library.Char_ord" "HOL-Library.List_Lexorder"
begin

section \<open>Byte strings, results and Go values\<close>

text \<open>
  A Go \<open>string\<close> and a Go \<open>[]byte\<close> are both sequences of bytes; an Isabelle
  \<open>char\<close> is one byte, so both are modelled as \<open>string\<close>. The order on strings of
  \<open>List_Lexorder\<close> over \<open>Char_ord\<close> is the bytewise order LevelDB iterates in.
\<close>

type_synonym bytes = string

text \<open>A Go call either returns or panics; a panic in a goroutine ends the process.\<close>

datatype 'a result = Panicked string | Returned 'a

text \<open>
  The dynamic types that \<open>BuildMessage\<close> puts into a \<open>[]interface{}\<close>: a string
  (ticker, price), an \<open>int\<close> or \<open>int64\<close> (destination chain, timestamp) and the nil
  interface (a schema field with no value).
\<close>

datatype gval = GNil | GString string | GInt int

section \<open>The store: a LevelDB key-value database\<close>

record Message =
  msg_Hash :: string
  msg_Data :: "gval list"
  msg_DataStructure :: "string list"
  msg_DataStructureMeta :: "string list"
  msg_Signatures :: "(string \<rightharpoonup> string) option"
  msg_Timestamp :: int

text \<open>
  The values this program writes are the JSON text of a \<open>Message\<close> (under \<open>data:\<close>),
  of a \<open>map[string]string\<close> (under \<open>sig:\<close>), of a \<open>[]string\<close> (under \<open>ds:\<close>) and
  the empty byte string (under \<open>index:\<close>). The model keeps the Go value that the JSON
  text denotes; \<open>VCorrupt\<close> stands for bytes that \<open>json.Unmarshal\<close> rejects.
\<close>

datatype dbval =
    VMessage Message
  | VSigs "string \<rightharpoonup> string"
  | VStruct "string list"
  | VEmpty
  | VCorrupt

datatype db_error = ErrNotFound | ErrClosed | ErrIO

text \<open>
  The database is its key-ordered content, whether \<open>Close\<close> has been called (every
  later operation returns \<open>ErrClosed\<close>), and whether the engine rejects writes (an I/O
  failure: reads still succeed).
\<close>

record LevelDB =
  kv :: "(string \<times> dbval) list"
  closed :: bool
  write_fault :: bool

definition dataPrefix :: string where "dataPrefix = ''data:''"
definition signaturePrefix :: string where "signaturePrefix = ''sig:''"
definition dataStructPrefix :: string where "dataStructPrefix = ''ds:''"
definition indexPrefix :: string where "indexPrefix = ''index:''"

fun put :: "string \<Rightarrow> 'v \<Rightarrow> (string \<times> 'v) list \<Rightarrow> (string \<times> 'v) list" where
  "put k v [] = [(k, v)]"
| "put k v ((k', v') # r) =
     (if k = k' then (k, v) # r
      else if k < k' then (k, v) # (k', v') # r
      else (k', v') # put k v r)"

definition db_Get :: "LevelDB \<Rightarrow> string \<Rightarrow> db_error + dbval" where
  "db_Get db k =
     (if closed db then Inl ErrClosed
      else case map_of (kv db) k of None \<Rightarrow> Inl ErrNotFound | Some v \<Rightarrow> Inr v)"

text \<open>\<open>Has\<close> returns \<open>(false, err)\<close> on a closed database; the callers drop \<open>err\<close>.\<close>

definition db_Has :: "LevelDB \<Rightarrow> string \<Rightarrow> bool" where
  "db_Has db k = (\<not> closed db \<and> map_of (kv db) k \<noteq> None)"

definition db_Put :: "LevelDB \<Rightarrow> string \<Rightarrow> dbval \<Rightarrow> db_error + LevelDB" where
  "db_Put db k v =
     (if closed db then Inl ErrClosed
      else if write_fault db then Inl ErrIO
      else Inr (db\<lparr>kv := put k v (kv db)\<rparr>))"

definition db_Close :: "LevelDB \<Rightarrow> LevelDB" where
  "db_Close db = db\<lparr>closed := True\<rparr>"

definition HasPrefix :: "string \<Rightarrow> string \<Rightarrow> bool" where
  "HasPrefix s p = (take (length p) s = p)"

text \<open>
  \<open>NewIterator(util.BytesPrefix(prefix))\<close>: the keys that start with \<open>prefix\<close>, in key
  order; \<open>Next\<close> walks them upwards, \<open>Last\<close> and \<open>Prev\<close> downwards. On a closed
  database the iterator is empty.
\<close>

definition iter_keys :: "LevelDB \<Rightarrow> string \<Rightarrow> string list" where
  "iter_keys db prefix =
     (if closed db then [] else filter (\<lambda>k. HasPrefix k prefix) (map fst (kv db)))"

definition empty_db :: LevelDB where
  "empty_db = \<lparr>kv = [], closed = False, write_fault = False\<rparr>"

subsection \<open>JSON decoding of stored values\<close>

fun unmarshal_Message :: "dbval \<Rightarrow> Message option" where
  "unmarshal_Message (VMessage m) = Some m"
| "unmarshal_Message _ = None"

fun unmarshal_sigs :: "dbval \<Rightarrow> (string \<rightharpoonup> string) option" where
  "unmarshal_sigs (VSigs m) = Some m"
| "unmarshal_sigs _ = None"

datatype error = DBError db_error | UnmarshalError | InvalidIndexKey

subsection \<open>StoreSignature and GetSignatures\<close>

definition StoreSignature :: "LevelDB \<Rightarrow> string \<Rightarrow> string \<Rightarrow> string \<Rightarrow> error + LevelDB" where
  "StoreSignature db hash signer signature =
     (let sigKey = signaturePrefix @ hash;
          write = (\<lambda>sigs. case db_Put db sigKey (VSigs (sigs(signer \<mapsto> signature))) of
                            Inl e \<Rightarrow> Inl (DBError e)
                          | Inr db' \<Rightarrow> Inr db')
      in case db_Get db sigKey of
           Inr sigData \<Rightarrow>
             (case unmarshal_sigs sigData of
                None \<Rightarrow> Inl UnmarshalError
              | Some sigs \<Rightarrow> write sigs)
         | Inl e \<Rightarrow> if e \<noteq> ErrNotFound then Inl (DBError e) else write Map.empty)"

text \<open>
  The first component is the returned map: \<open>None\<close> is Go's nil map, \<open>Some Map.empty\<close>
  the map made by \<open>make(map[string]string)\<close>.
\<close>

definition GetSignatures :: "LevelDB \<Rightarrow> string \<Rightarrow> (string \<rightharpoonup> string) option \<times> bool" where
  "GetSignatures db hash =
     (case db_Get db (signaturePrefix @ hash) of
        Inl e \<Rightarrow> if e = ErrNotFound then (Some Map.empty, False) else (None, False)
      | Inr sigData \<Rightarrow>
          (case unmarshal_sigs sigData of
             None \<Rightarrow> (None, False)
           | Some sigs \<Rightarrow> (Some sigs, True)))"

section \<open>Text helpers: decimal, hex, split\<close>

text \<open>\<open>%d\<close> of \<open>fmt.Sprintf\<close> and \<open>strconv.Itoa\<close>: decimal digits, a minus sign first.\<close>

fun dec :: "nat \<Rightarrow> string" where
  "dec n = (if n < 10 then [char_of (48 + n)] else dec (n div 10) @ [char_of (48 + n mod 10)])"

declare dec.simps [simp del]

definition Itoa :: "int \<Rightarrow> string" where
  "Itoa i = (if i < 0 then CHR ''-'' # dec (nat (- i)) else dec (nat i))"

text \<open>\<open>%v\<close> of a value held in an \<open>interface{}\<close>.\<close>

fun format_v :: "gval \<Rightarrow> string" where
  "format_v GNil = ''<nil>''"
| "format_v (GString s) = s"
| "format_v (GInt i) = Itoa i"

text \<open>\<open>strings.Split(s, sep)\<close> for a one-byte separator: \<open>n + 1\<close> parts for \<open>n\<close> separators.\<close>

fun Split :: "string \<Rightarrow> char \<Rightarrow> string list" where
  "Split [] sep = [[]]"
| "Split (c # cs) sep =
     (if c = sep then [] # Split cs sep
      else case Split cs sep of
             [] \<Rightarrow> [[c]]
           | p # ps \<Rightarrow> (c # p) # ps)"

definition is_digit :: "char \<Rightarrow> bool" where
  "is_digit c = (48 \<le> (of_char c :: nat) \<and> (of_char c :: nat) \<le> 57)"

definition digits_value :: "string \<Rightarrow> nat" where
  "digits_value ds = foldl (\<lambda>n c. 10 * n + (of_char c - 48)) 0 ds"

text \<open>
  \<open>strconv.ParseInt(s, 10, 64)\<close>: an optional sign, then one or more decimal digits;
  a value outside the range of \<open>int64\<close> is an error.
\<close>

definition ParseInt :: "string \<Rightarrow> int option" where
  "ParseInt s =
     (let neg = (s \<noteq> [] \<and> hd s = CHR ''-'');
          ds = (if s \<noteq> [] \<and> (hd s = CHR ''-'' \<or> hd s = CHR ''+'') then tl s else s)
      in if ds = [] \<or> \<not> list_all is_digit ds then None
         else let n = int (digits_value ds);
                  v = (if neg then - n else n)
              in if v < - (2 ^ 63) \<or> 2 ^ 63 - 1 < v then None else Some v)"

definition fromHexChar :: "char \<Rightarrow> nat option" where
  "fromHexChar c =
     (let n = (of_char c :: nat)
      in if 48 \<le> n \<and> n \<le> 57 then Some (n - 48)
         else if 97 \<le> n \<and> n \<le> 102 then Some (n - 97 + 10)
         else if 65 \<le> n \<and> n \<le> 70 then Some (n - 65 + 10)
         else None)"

text \<open>\<open>hex.DecodeString\<close>: \<open>None\<close> for an odd length or a byte that is no hex digit.\<close>

fun hex_DecodeString :: "string \<Rightarrow> bytes option" where
  "hex_DecodeString [] = Some []"
| "hex_DecodeString [c] = None"
| "hex_DecodeString (a # b # rest) =
     (case (fromHexChar a, fromHexChar b) of
        (Some x, Some y) \<Rightarrow>
          (case hex_DecodeString rest of
             None \<Rightarrow> None
           | Some bs \<Rightarrow> Some (char_of (16 * x + y) # bs))
      | _ \<Rightarrow> None)"

text \<open>\<open>hexutil.Decode\<close>: the input must be non-empty and start with \<open>0x\<close> or \<open>0X\<close>.\<close>

definition has0xPrefix :: "string \<Rightarrow> bool" where
  "has0xPrefix s =
     (2 \<le> length s \<and> s ! 0 = CHR ''0'' \<and> (s ! 1 = CHR ''x'' \<or> s ! 1 = CHR ''X''))"

definition hexutil_Decode :: "string \<Rightarrow> bytes option" where
  "hexutil_Decode input =
     (if input = [] then None
      else if \<not> has0xPrefix input then None
      else hex_DecodeString (drop 2 input))"

definition hexdigit :: "nat \<Rightarrow> char" where
  "hexdigit n = (if n < 10 then char_of (48 + n) else char_of (87 + n))"

text \<open>\<open>fmt.Sprintf("%x", b)\<close> on a byte slice: two lowercase hex digits per byte.\<close>

definition hex_encode :: "bytes \<Rightarrow> string" where
  "hex_encode b =
     concat (map (\<lambda>c. [hexdigit ((of_char c :: nat) div 16), hexdigit ((of_char c :: nat) mod 16)]) b)"

subsection \<open>StoreData\<close>

text \<open>\<open>m[k] = v\<close> on a Go map, kept as a list of its entries.\<close>

fun map_set :: "string \<Rightarrow> 'v \<Rightarrow> (string \<times> 'v) list \<Rightarrow> (string \<times> 'v) list" where
  "map_set k v [] = [(k, v)]"
| "map_set k v ((k', v') # r) = (if k = k' then (k, v) # r else (k', v') # map_set k v r)"

text \<open>
  The loop \<open>for i, field := range dataStructureMeta { if i < len(data) { dataMap[field] = data[i] } }\<close>.
\<close>

definition build_dataMap :: "string list \<Rightarrow> gval list \<Rightarrow> (string \<times> gval) list" where
  "build_dataMap dataStructureMeta data =
     foldl (\<lambda>m (field, v). map_set field v m) [] (zip dataStructureMeta data)"

definition timestampIndexKey :: "int \<Rightarrow> int \<Rightarrow> string \<Rightarrow> string" where
  "timestampIndexKey dataStructureID timestamp hash =
     indexPrefix @ Itoa dataStructureID @ '':'' @ Itoa timestamp @ '':'' @ hash"

definition fieldIndexKey :: "int \<Rightarrow> string \<Rightarrow> gval \<Rightarrow> string \<Rightarrow> string" where
  "fieldIndexKey dataStructureID field v hash =
     indexPrefix @ Itoa dataStructureID @ '':'' @ field @ '':'' @ format_v v @ '':'' @ hash"

text \<open>
  The index keys one call of \<open>StoreData\<close> puts, in the order it puts them. Go ranges
  over \<open>dataMap\<close> in an unspecified order; every key gets the same empty value, so the
  order does not show in the database.
\<close>

definition indexKeys :: "int \<Rightarrow> int \<Rightarrow> string \<Rightarrow> (string \<times> gval) list \<Rightarrow> string list" where
  "indexKeys dataStructureID timestamp hash dataMap =
     timestampIndexKey dataStructureID timestamp hash
       # map (\<lambda>(field, v). fieldIndexKey dataStructureID field v hash) dataMap"

fun put_index_keys :: "LevelDB \<Rightarrow> string list \<Rightarrow> error + LevelDB" where
  "put_index_keys db [] = Inr db"
| "put_index_keys db (k # ks) =
     (case db_Put db k VEmpty of
        Inl e \<Rightarrow> Inl (DBError e)
      | Inr db' \<Rightarrow> put_index_keys db' ks)"

text \<open>
  A put fails only on a closed or faulty database, where the first put of the call
  fails already: an error return leaves the database as it was.
\<close>

definition StoreData ::
  "LevelDB \<Rightarrow> string \<Rightarrow> gval list \<Rightarrow> string list \<Rightarrow> string list \<Rightarrow> int \<Rightarrow> int \<Rightarrow> error + LevelDB" where
  "StoreData db hash data dataStructure dataStructureMeta timestamp dataStructureID =
     (let dataMap = build_dataMap dataStructureMeta data;
          msg = \<lparr>msg_Hash = hash, msg_Data = data, msg_DataStructure = dataStructure,
                 msg_DataStructureMeta = dataStructureMeta, msg_Signatures = None,
                 msg_Timestamp = timestamp\<rparr>;
          dsKey = dataStructPrefix @ Itoa dataStructureID
      in case (if \<not> db_Has db dsKey then db_Put db dsKey (VStruct dataStructure) else Inr db) of
           Inl e \<Rightarrow> Inl (DBError e)
         | Inr db1 \<Rightarrow>
             (case db_Put db1 (dataPrefix @ hash) (VMessage msg) of
                Inl e \<Rightarrow> Inl (DBError e)
              | Inr db2 \<Rightarrow>
                  put_index_keys db2 (indexKeys dataStructureID timestamp hash dataMap)))"

subsection \<open>Queries\<close>

text \<open>Go's \<open>int\<close> is 64 bits wide here; arithmetic wraps around in two's complement.\<close>

definition wrap64 :: "int \<Rightarrow> int" where
  "wrap64 i = (i + 2 ^ 63) mod 2 ^ 64 - 2 ^ 63"

definition zero_Message :: Message where
  "zero_Message = \<lparr>msg_Hash = [], msg_Data = [], msg_DataStructure = [],
                    msg_DataStructureMeta = [], msg_Signatures = None, msg_Timestamp = 0\<rparr>"

text \<open>\<open>sigs, exists := ldb.GetSignatures(msg.Hash); if exists { msg.Signatures = sigs }\<close>\<close>

definition join_signatures :: "LevelDB \<Rightarrow> Message \<Rightarrow> Message" where
  "join_signatures db msg =
     (case GetSignatures db (msg_Hash msg) of
        (sigs, True) \<Rightarrow> msg\<lparr>msg_Signatures := sigs\<rparr>
      | (sigs, False) \<Rightarrow> msg)"

text \<open>
  The loop of \<open>GetAllMessages\<close> over the keys from \<open>iter.Last()\<close> downwards; the
  arguments after the keys are the loop's variables \<open>skip\<close>, \<open>count\<close> and \<open>messages\<close>.
\<close>

fun GetAllMessages_loop ::
  "LevelDB \<Rightarrow> int \<Rightarrow> string list \<Rightarrow> int \<Rightarrow> int \<Rightarrow> Message list \<Rightarrow> Message list" where
  "GetAllMessages_loop db limit [] skip count messages = messages"
| "GetAllMessages_loop db limit (key # keys) skip count messages =
     (let parts = Split key CHR '':''
      in if length parts < 4 then GetAllMessages_loop db limit keys skip count messages
         else case db_Get db (dataPrefix @ parts ! 3) of
                Inl e \<Rightarrow> GetAllMessages_loop db limit keys skip count messages
              | Inr data \<Rightarrow>
                  if skip > 0 then GetAllMessages_loop db limit keys (skip - 1) count messages
                  else case unmarshal_Message data of
                         None \<Rightarrow> GetAllMessages_loop db limit keys skip count messages
                       | Some msg \<Rightarrow>
                           let messages' = messages @ [join_signatures db msg];
                               count' = count + 1
                           in if count' \<ge> limit then messages'
                              else GetAllMessages_loop db limit keys skip count' messages')"

definition GetAllMessages :: "LevelDB \<Rightarrow> int \<Rightarrow> int \<Rightarrow> int \<Rightarrow> Message list" where
  "GetAllMessages db dataStructureID page limit =
     (let prefix = indexPrefix @ Itoa dataStructureID @ '':'';
          skip = wrap64 (wrap64 (page - 1) * limit)
      in GetAllMessages_loop db limit (rev (iter_keys db prefix)) skip 0 [])"

text \<open>
  \<open>RPCServer.handleList\<close> after \<open>strconv.Atoi\<close> of the \<open>page\<close>, \<open>limit\<close> and \<open>dsid\<close>
  query parameters (0 when absent or malformed): the list it encodes as the response.
\<close>

definition handleList :: "LevelDB \<Rightarrow> int \<Rightarrow> int \<Rightarrow> int \<Rightarrow> Message list" where
  "handleList db dataStructureID page0 limit0 =
     (let page = (if page0 < 0 then 0 else page0);
          limit = (if limit0 \<le> 0 \<or> limit0 > 100 then 10 else limit0)
      in GetAllMessages db dataStructureID page limit)"

definition GetLatestMessage :: "LevelDB \<Rightarrow> int \<Rightarrow> Message \<times> bool \<times> error option" where
  "GetLatestMessage db dataStructureID =
     (let prefix = indexPrefix @ Itoa dataStructureID @ '':''
      in case rev (iter_keys db prefix) of
           [] \<Rightarrow> (zero_Message, False, Some (DBError ErrNotFound))
         | key # below \<Rightarrow>
             (let parts = Split key CHR '':''
              in if length parts < 4 then (zero_Message, False, Some InvalidIndexKey)
                 else case db_Get db (dataPrefix @ parts ! 3) of
                        Inl e \<Rightarrow> (zero_Message, False, Some (DBError e))
                      | Inr data \<Rightarrow>
                          (case unmarshal_Message data of
                             None \<Rightarrow> (zero_Message, False, Some UnmarshalError)
                           | Some msg \<Rightarrow>
                               (case GetSignatures db (msg_Hash msg) of
                                  (sigs, True) \<Rightarrow> (msg\<lparr>msg_Signatures := sigs\<rparr>, True, None)
                                | (sigs, False) \<Rightarrow> (msg, False, None)))))"

text \<open>\<open>len(sigs)\<close> of a returned map; the nil map has length 0.\<close>

definition len_sigs :: "(string \<rightharpoonup> string) option \<Rightarrow> int" where
  "len_sigs sigs = (case sigs of None \<Rightarrow> 0 | Some m \<Rightarrow> int (card (dom m)))"

text \<open>\<open>RPCServer.getLatestConfirmedMessage\<close>: the loop from \<open>iter.Last()\<close> downwards.\<close>

fun getLatestConfirmedMessage_loop ::
  "LevelDB \<Rightarrow> int \<Rightarrow> string list \<Rightarrow> Message \<times> bool \<times> error option" where
  "getLatestConfirmedMessage_loop db threshold [] = (zero_Message, False, None)"
| "getLatestConfirmedMessage_loop db threshold (key # keys) =
     (let parts = Split key CHR '':''
      in if length parts < 4 then getLatestConfirmedMessage_loop db threshold keys
         else case db_Get db (dataPrefix @ parts ! 3) of
                Inl e \<Rightarrow> getLatestConfirmedMessage_loop db threshold keys
              | Inr data \<Rightarrow>
                  (case unmarshal_Message data of
                     None \<Rightarrow> getLatestConfirmedMessage_loop db threshold keys
                   | Some msg \<Rightarrow>
                       (case GetSignatures db (msg_Hash msg) of
                          (sigs, ex) \<Rightarrow>
                            if ex \<and> len_sigs sigs \<ge> threshold
                            then (msg\<lparr>msg_Signatures := sigs\<rparr>, True, None)
                            else getLatestConfirmedMessage_loop db threshold keys)))"

definition getLatestConfirmedMessage :: "LevelDB \<Rightarrow> int \<Rightarrow> int \<Rightarrow> Message \<times> bool \<times> error option" where
  "getLatestConfirmedMessage db dataStructureID threshold =
     getLatestConfirmedMessage_loop db threshold
       (rev (iter_keys db (indexPrefix @ Itoa dataStructureID @ '':'')))"

record DataStructureStats =
  stats_ID :: int
  MessageCount :: int
  LastMessageTime :: int
  LastConfirmedTime :: int
  LastConfirmedHash :: string

text \<open>One round of the loop \<open>for iter.Next()\<close> of \<open>GetDataStructureStats\<close>.\<close>

definition stats_step :: "LevelDB \<Rightarrow> int \<Rightarrow> DataStructureStats \<Rightarrow> string \<Rightarrow> DataStructureStats" where
  "stats_step db threshold stats0 key =
     (let stats = stats0\<lparr>MessageCount := MessageCount stats0 + 1\<rparr>;
          parts = Split key CHR '':''
      in if length parts < 4 then stats
         else case ParseInt (parts ! 2) of
                None \<Rightarrow> stats
              | Some timestamp \<Rightarrow>
                  (let stats1 = (if timestamp > LastMessageTime stats
                                 then stats\<lparr>LastMessageTime := timestamp\<rparr> else stats);
                       hash = parts ! 3
                   in case GetSignatures db hash of
                        (sigs, ex) \<Rightarrow>
                          if ex \<and> len_sigs sigs \<ge> threshold
                          then (if timestamp > LastConfirmedTime stats1
                                then stats1\<lparr>LastConfirmedTime := timestamp,
                                            LastConfirmedHash := hash\<rparr>
                                else stats1)
                          else stats1))"

definition GetDataStructureStats :: "LevelDB \<Rightarrow> int \<Rightarrow> int \<Rightarrow> DataStructureStats" where
  "GetDataStructureStats db dsid threshold =
     foldl (stats_step db threshold)
       \<lparr>stats_ID = dsid, MessageCount = 0, LastMessageTime = 0, LastConfirmedTime = 0,
        LastConfirmedHash = []\<rparr>
       (iter_keys db (indexPrefix @ Itoa dsid @ '':''))"

subsection \<open>Pagination as the specification words it\<close>

text \<open>
  The entries of an index range that join to a data row: the value under
  \<open>data:<parts[3]>\<close> for every key with at least four \<open>:\<close>-separated parts whose
  data row can be read.
\<close>

definition joinable_entries :: "LevelDB \<Rightarrow> string list \<Rightarrow> dbval list" where
  "joinable_entries db keys =
     List.map_filter
       (\<lambda>key. let parts = Split key CHR '':''
              in if length parts < 4 then None
                 else case db_Get db (dataPrefix @ parts ! 3) of
                        Inl e \<Rightarrow> None
                      | Inr v \<Rightarrow> Some v)
       keys"

text \<open>A data row decoded and joined with its signature map; \<open>None\<close> when it does not decode.\<close>

definition decode_joined :: "LevelDB \<Rightarrow> dbval \<Rightarrow> Message option" where
  "decode_joined db v =
     (case unmarshal_Message v of None \<Rightarrow> None | Some msg \<Rightarrow> Some (join_signatures db msg))"

text \<open>
  Skip \<open>skip\<close> joinable entries of the range read downwards, then collect up to \<open>limit\<close>
  records that decode.
\<close>

definition spec_page :: "LevelDB \<Rightarrow> int \<Rightarrow> nat \<Rightarrow> nat \<Rightarrow> Message list" where
  "spec_page db dataStructureID skip limit =
     take limit
       (List.map_filter (decode_joined db)
          (drop skip
             (joinable_entries db
                (rev (iter_keys db (indexPrefix @ Itoa dataStructureID @ '':''))))))"

text \<open>The engine keeps its keys in strictly ascending order.\<close>

definition db_wf :: "LevelDB \<Rightarrow> bool" where
  "db_wf db = (sorted (map fst (kv db)) \<and> distinct (map fst (kv db)))"

section \<open>Canonical hashing and the message builder\<close>

text \<open>
  The library functions that the program calls and that stay abstract here: Keccak-256,
  \<open>json.Marshal\<close> of a \<open>[]interface{}\<close> (\<open>None\<close> is its error), public-key recovery
  from a signature (\<open>crypto.SigToPub\<close>, \<open>None\<close> is its error), \<open>crypto.PubkeyToAddress\<close>
  and \<open>common.Address.Hex\<close>.
\<close>

record lib =
  Keccak256 :: "bytes \<Rightarrow> bytes"
  json_Marshal :: "gval list \<Rightarrow> bytes option"
  SigToPub :: "bytes \<Rightarrow> bytes \<Rightarrow> bytes option"
  PubkeyToAddress :: "bytes \<Rightarrow> bytes"
  Hex :: "bytes \<Rightarrow> string"

text \<open>The dynamic types \<open>SolidityKeccak256\<close> asserts on its \<open>[]interface{}\<close> argument.\<close>

datatype solval = Bytes32 bytes | Str string | BigInt int | Uint64 nat | Address bytes

text \<open>\<open>(*big.Int).Bytes\<close>: the absolute value, big-endian, without leading zero bytes.\<close>

fun nat_Bytes :: "nat \<Rightarrow> bytes" where
  "nat_Bytes n = (if n = 0 then [] else nat_Bytes (n div 256) @ [char_of n])"

declare nat_Bytes.simps [simp del]

definition big_Bytes :: "int \<Rightarrow> bytes" where
  "big_Bytes i = nat_Bytes (nat \<bar>i\<bar>)"

text \<open>\<open>binary.BigEndian.PutUint64\<close> into a fresh slice of 8 bytes.\<close>

definition PutUint64 :: "nat \<Rightarrow> bytes" where
  "PutUint64 v = map (\<lambda>i. char_of (v div 256 ^ (7 - i))) [0..<8]"

definition padTo32Bytes :: "bytes \<Rightarrow> bytes result" where
  "padTo32Bytes data =
     (if length data > 32 then Panicked ''data too long for 32 bytes''
      else Returned (replicate (32 - length data) (CHR 0x00) @ data))"

definition pack_value :: "string \<Rightarrow> solval \<Rightarrow> bytes result" where
  "pack_value typ v =
     (if typ = ''bytes32'' then
        (case v of Bytes32 val \<Rightarrow> Returned val | _ \<Rightarrow> Panicked ''invalid bytes32 value'')
      else if typ = ''string'' then
        (case v of Str val \<Rightarrow> Returned val | _ \<Rightarrow> Panicked ''invalid string value'')
      else if typ = ''uint256'' then
        (case v of BigInt val \<Rightarrow> padTo32Bytes (big_Bytes val)
                 | _ \<Rightarrow> Panicked ''invalid uint256 value'')
      else if typ = ''uint64'' then
        (case v of Uint64 val \<Rightarrow> padTo32Bytes (PutUint64 val)
                 | _ \<Rightarrow> Panicked ''invalid uint64 value'')
      else if typ = ''address'' then
        (case v of Address val \<Rightarrow> padTo32Bytes val | _ \<Rightarrow> Panicked ''invalid address value'')
      else Panicked (''unsupported type: '' @ typ))"

text \<open>The loop \<open>for i, typ := range types\<close>, with \<open>packed\<close> as it stands before round \<open>i\<close>.\<close>

fun pack_loop :: "bytes \<Rightarrow> string list \<Rightarrow> solval list \<Rightarrow> bytes result" where
  "pack_loop packed [] values = Returned packed"
| "pack_loop packed (typ # types) [] = Panicked ''index out of range''"
| "pack_loop packed (typ # types) (v # values) =
     (case pack_value typ v of
        Panicked e \<Rightarrow> Panicked e
      | Returned b \<Rightarrow> pack_loop (packed @ b) types values)"

definition SolidityKeccak256 :: "lib \<Rightarrow> string list \<Rightarrow> solval list \<Rightarrow> bytes result" where
  "SolidityKeccak256 l types values =
     (if length types \<noteq> length values then Panicked ''types and values length mismatch''
      else case pack_loop [] types values of
             Panicked e \<Rightarrow> Panicked e
           | Returned packed \<Rightarrow> Returned (Keccak256 l packed))"

definition calculateHash :: "lib \<Rightarrow> gval list \<Rightarrow> int \<Rightarrow> string result" where
  "calculateHash l data timestamp =
     (case json_Marshal l data of
        None \<Rightarrow> Panicked ''invalid message to calc hash''
      | Some jsonData \<Rightarrow>
          (case SolidityKeccak256 l [''string'', ''uint256''] [Str jsonData, BigInt timestamp] of
             Panicked e \<Rightarrow> Panicked e
           | Returned hash \<Rightarrow> Returned (hex_encode hash)))"

subsection \<open>FloatToWei\<close>

text \<open>
  A \<open>float64\<close> is not-a-number, an infinity, or \<open>\<plusminus> m * 2 ^ e\<close> with a mantissa
  \<open>m < 2 ^ 53\<close>; \<open>Finite neg m e\<close> denotes the last.
\<close>

datatype float64 = Finite bool nat int | Infinite bool | NaN

text \<open>
  A \<open>big.Float\<close>: its precision in bits and either an infinity or the value
  \<open>\<plusminus> mant * 2 ^ exp\<close>. A result with precision 0 takes its precision from the
  operands, and a result is rounded to its precision, to nearest even.
\<close>

datatype bigFloat = BFinite nat bool nat int | BInf nat bool

fun bitlen :: "nat \<Rightarrow> nat" where
  "bitlen n = (if n = 0 then 0 else Suc (bitlen (n div 2)))"

declare bitlen.simps [simp del]

definition round_to :: "nat \<Rightarrow> nat \<Rightarrow> nat" where
  "round_to prec m =
     (if bitlen m \<le> prec then m
      else let s = bitlen m - prec;
               q = m div 2 ^ s;
               r = m mod 2 ^ s;
               half = 2 ^ (s - 1)
           in (if r > half \<or> (r = half \<and> odd q) then q + 1 else q) * 2 ^ s)"

text \<open>\<open>new(big.Float).SetFloat64(x)\<close>: precision 53, exact; it panics on not-a-number.\<close>

definition SetFloat64 :: "float64 \<Rightarrow> bigFloat result" where
  "SetFloat64 x =
     (case x of
        NaN \<Rightarrow> Panicked ''Float.SetFloat64(NaN)''
      | Infinite neg \<Rightarrow> Returned (BInf 53 neg)
      | Finite neg m e \<Rightarrow> Returned (BFinite 53 neg m e))"

text \<open>\<open>new(big.Float).SetInt(x)\<close>: precision \<open>max(x.BitLen(), 64)\<close>, exact.\<close>

definition SetInt :: "int \<Rightarrow> bigFloat" where
  "SetInt x = BFinite (max (bitlen (nat \<bar>x\<bar>)) 64) (x < 0) (nat \<bar>x\<bar>) 0"

definition prec_of :: "bigFloat \<Rightarrow> nat" where
  "prec_of x = (case x of BFinite p _ _ _ \<Rightarrow> p | BInf p _ \<Rightarrow> p)"

text \<open>\<open>new(big.Float).Mul(x, y)\<close>: the product rounded to the larger precision.\<close>

definition Mul :: "bigFloat \<Rightarrow> bigFloat \<Rightarrow> bigFloat result" where
  "Mul x y =
     (let p = max (prec_of x) (prec_of y)
      in case (x, y) of
           (BFinite px nx mx ex, BFinite py ny my ey) \<Rightarrow>
             Returned (BFinite p (nx \<noteq> ny) (round_to p (mx * my)) (ex + ey))
         | (BInf px nx, BFinite py ny my ey) \<Rightarrow>
             if my = 0 then Panicked ''multiplication of zero with infinity''
             else Returned (BInf p (nx \<noteq> ny))
         | (BFinite px nx mx ex, BInf py ny) \<Rightarrow>
             if mx = 0 then Panicked ''multiplication of zero with infinity''
             else Returned (BInf p (nx \<noteq> ny))
         | (BInf px nx, BInf py ny) \<Rightarrow> Returned (BInf p (nx \<noteq> ny)))"

text \<open>
  \<open>x.Int(z)\<close>: \<open>z\<close> is set to \<open>x\<close> truncated towards zero; for an infinity \<open>z\<close> keeps
  the value it had.
\<close>

definition Float_Int :: "bigFloat \<Rightarrow> int \<Rightarrow> int" where
  "Float_Int x z =
     (case x of
        BInf p neg \<Rightarrow> z
      | BFinite p neg m e \<Rightarrow>
          (let a = (if e \<ge> 0 then int m * 2 ^ nat e else int m div 2 ^ nat (- e))
           in if neg then - a else a))"

definition FloatToWei :: "float64 \<Rightarrow> int result" where
  "FloatToWei price =
     (case SetFloat64 price of
        Panicked e \<Rightarrow> Panicked e
      | Returned priceBig \<Rightarrow>
          (let multiplier = SetInt (10 ^ 18)
           in case Mul priceBig multiplier of
                Panicked e \<Rightarrow> Panicked e
              | Returned wei \<Rightarrow> Returned (Float_Int wei 0)))"

text \<open>The real number a finite \<open>float64\<close> denotes.\<close>

definition float64_value :: "bool \<Rightarrow> nat \<Rightarrow> int \<Rightarrow> real" where
  "float64_value neg m e = (if neg then - 1 else 1) * real m * 2 powr real_of_int e"

subsection \<open>BuildMessage\<close>

definition MsgTypeSignRequest :: string where "MsgTypeSignRequest = ''sign_request''"
definition MsgTypeSignResponse :: string where "MsgTypeSignResponse = ''sign_response''"

record SignRequest =
  req_Type :: string
  req_Hash :: string
  req_Data :: "gval list"
  req_DataStructure :: "string list"
  req_DataStructureMeta :: "string list"
  req_DataStructureId :: int
  req_Timestamp :: int

record Field =
  Name :: string
  SolidityType :: string

record StockQuoteMessageBuilder =
  Ticker :: string
  StructureID :: string
  DestinationChain :: int
  Structure :: "Field list"

text \<open>
  The lookup \<open>fieldValues[f.Name]\<close> in the map literal of \<open>BuildMessage\<close>; a name that
  is no key gives the nil interface.
\<close>

definition fieldValues :: "StockQuoteMessageBuilder \<Rightarrow> int \<Rightarrow> int \<Rightarrow> string \<Rightarrow> gval" where
  "fieldValues b priceScaled timestamp name =
     (if name = ''ticker'' then GString (Ticker b)
      else if name = ''price'' then GString (Itoa priceScaled)
      else if name = ''destination_chain'' then GInt (DestinationChain b)
      else if name = ''timestamp'' then GInt timestamp
      else GNil)"

text \<open>
  \<open>BuildMessage\<close>, with the reading \<open>now\<close> of \<open>time.Now().Unix()\<close> as an argument.
  \<open>strconv.Atoi\<close> is \<open>ParseInt\<close> at base 10 and 64 bits.
\<close>

definition BuildMessage ::
  "lib \<Rightarrow> StockQuoteMessageBuilder \<Rightarrow> float64 \<Rightarrow> int \<Rightarrow> SignRequest result" where
  "BuildMessage l b price now =
     (case FloatToWei price of
        Panicked e \<Rightarrow> Panicked e
      | Returned priceScaled \<Rightarrow>
          (let timestamp = now;
               dataStructure = map SolidityType (Structure b);
               dataStructureMeta = map Name (Structure b);
               data = map (\<lambda>f. fieldValues b priceScaled timestamp (Name f)) (Structure b)
           in case calculateHash l data timestamp of
                Panicked e \<Rightarrow> Panicked e
              | Returned hash \<Rightarrow>
                  Returned \<lparr>req_Type = MsgTypeSignRequest, req_Hash = hash, req_Data = data,
                            req_DataStructure = dataStructure,
                            req_DataStructureMeta = dataStructureMeta,
                            req_DataStructureId =
                              (case ParseInt (StructureID b) of Some i \<Rightarrow> i | None \<Rightarrow> 0),
                            req_Timestamp = timestamp\<rparr>))"

text \<open>
  The packed encoding as the specification words it: the bytes of the JSON text with no
  length prefix, then the timestamp as 32 bytes, big-endian, zero-padded on the left.
\<close>

definition be32 :: "nat \<Rightarrow> bytes" where
  "be32 n = map (\<lambda>i. char_of (n div 256 ^ (31 - i))) [0..<32]"

definition spec_packed :: "bytes \<Rightarrow> int \<Rightarrow> bytes" where
  "spec_packed jsonData timestamp = jsonData @ be32 (nat timestamp)"

section \<open>Signer node\<close>

record SignResponse =
  resp_Type :: string
  resp_Hash :: string
  resp_Signature :: string
  resp_PeerID :: string

text \<open>
  A message taken from the subscription, after \<open>json.Unmarshal\<close>: bytes that are no
  JSON object, a sign request, a sign response, or an object whose \<open>type\<close> is
  neither or whose other fields do not decode (the handlers log and return).
\<close>

datatype wire = Malformed | WRequest SignRequest | WResponse SignResponse | WOther string

text \<open>
  \<open>accounts.TextHash\<close>: Keccak-256 of \<open>"\x19Ethereum Signed Message:\n"\<close>, the decimal
  length of the data, and the data.
\<close>

definition TextHash :: "lib \<Rightarrow> bytes \<Rightarrow> bytes" where
  "TextHash l data =
     Keccak256 l (CHR 0x19 # ''Ethereum Signed Message:'' @ [CHR 0x0A] @ dec (length data) @ data)"

text \<open>The \<open>Signer\<close> interface; \<open>None\<close> is the error of \<open>Sign\<close>.\<close>

record Signer =
  Sign :: "bytes \<Rightarrow> string option"
  signer_Address :: string

text \<open>
  The signer node: its signer, what it has published on the topic so far, and whether
  \<open>topic.Publish\<close> succeeds.
\<close>

record Node =
  node_signer :: Signer
  published :: "SignResponse list"
  topic_up :: bool

definition Node_handleSignRequest :: "lib \<Rightarrow> Node \<Rightarrow> SignRequest \<Rightarrow> Node result" where
  "Node_handleSignRequest l n req =
     (case hex_DecodeString (req_Hash req) of
        None \<Rightarrow> Panicked ''encoding/hex: invalid hash''
      | Some hash \<Rightarrow>
          (let message = TextHash l hash
           in case Sign (node_signer n) message of
                None \<Rightarrow> Returned n
              | Some signature \<Rightarrow>
                  (let resp = \<lparr>resp_Type = MsgTypeSignResponse, resp_Hash = req_Hash req,
                               resp_Signature = signature,
                               resp_PeerID = signer_Address (node_signer n)\<rparr>
                   in if topic_up n then Returned (n\<lparr>published := published n @ [resp]\<rparr>)
                      else Returned n)))"

definition Node_HandleMessage :: "lib \<Rightarrow> Node \<Rightarrow> wire \<Rightarrow> Node result" where
  "Node_HandleMessage l n msg =
     (case msg of
        Malformed \<Rightarrow> Returned n
      | WRequest req \<Rightarrow> Node_handleSignRequest l n req
      | WResponse resp \<Rightarrow> Returned n
      | WOther t \<Rightarrow> Returned n)"

text \<open>The loop of \<open>Node.listen\<close> over the messages the subscription delivers.\<close>

fun Node_listen :: "lib \<Rightarrow> Node \<Rightarrow> wire list \<Rightarrow> Node result" where
  "Node_listen l n [] = Returned n"
| "Node_listen l n (msg # msgs) =
     (case Node_HandleMessage l n msg of
        Panicked e \<Rightarrow> Panicked e
      | Returned n' \<Rightarrow> Node_listen l n' msgs)"

section \<open>Coordinator\<close>

text \<open>\<open>signers\<close> is a \<open>map[string]bool\<close> that only ever receives \<open>true\<close>: a set of keys.\<close>

record PendingRequest =
  pr_timestamp :: int
  signers :: "string set"
  pr_data :: SignRequest

record OperatorNode =
  pending :: "string \<rightharpoonup> PendingRequest"
  pendingExpiry :: int
  trustedAddrs :: "string list"
  op_db :: LevelDB
  lastMessageTime :: "int option"

definition threshold :: "OperatorNode \<Rightarrow> nat" where
  "threshold o' = length (trustedAddrs o') div 2 + 1"

definition verifySignature :: "lib \<Rightarrow> bytes \<Rightarrow> string \<Rightarrow> string + bytes" where
  "verifySignature l message signatureHex =
     (case hexutil_Decode signatureHex of
        None \<Rightarrow> Inl ''invalid signature hex''
      | Some sigBytes \<Rightarrow>
          if length sigBytes \<noteq> 65 then Inl ''invalid signature length''
          else case SigToPub l message sigBytes of
                 None \<Rightarrow> Inl ''signature recovery failed''
               | Some pubKey \<Rightarrow> Inr (PubkeyToAddress l pubKey))"

text \<open>
  \<open>strings.EqualFold\<close> on the strings compared here: \<open>Address.Hex\<close> gives ASCII, where
  Unicode case folding is the folding of the letters A to Z.
\<close>

definition toLower :: "char \<Rightarrow> char" where
  "toLower c =
     (if 65 \<le> (of_char c :: nat) \<and> (of_char c :: nat) \<le> 90 then char_of ((of_char c :: nat) + 32)
      else c)"

definition EqualFold :: "string \<Rightarrow> string \<Rightarrow> bool" where
  "EqualFold s t = (map toLower s = map toLower t)"

text \<open>The loop over \<open>o.trustedAddrs\<close> that sets \<open>isTrusted\<close> and breaks.\<close>

fun isTrusted :: "string \<Rightarrow> string list \<Rightarrow> bool" where
  "isTrusted signerHex [] = False"
| "isTrusted signerHex (addr # addrs) =
     (if EqualFold signerHex addr then True else isTrusted signerHex addrs)"

definition handleSignResponse :: "lib \<Rightarrow> OperatorNode \<Rightarrow> SignResponse \<Rightarrow> OperatorNode result" where
  "handleSignResponse l o' resp =
     (case hex_DecodeString (resp_Hash resp) of
        None \<Rightarrow> Panicked ''encoding/hex: invalid hash''
      | Some hash \<Rightarrow>
          (let message = TextHash l hash
           in case verifySignature l message (resp_Signature resp) of
                Inl e \<Rightarrow> Returned o'
              | Inr signerAddress \<Rightarrow>
                  if \<not> isTrusted (Hex l signerAddress) (trustedAddrs o') then Returned o'
                  else case pending o' (resp_Hash resp) of
                         None \<Rightarrow> Returned o'
                       | Some req \<Rightarrow>
                           (case StoreSignature (op_db o') (resp_Hash resp) (Hex l signerAddress)
                                   (resp_Signature resp) of
                              Inl e \<Rightarrow> Returned o'
                            | Inr db' \<Rightarrow>
                                (let req' = req\<lparr>signers := insert (Hex l signerAddress) (signers req)\<rparr>
                                 in if card (signers req') \<ge> threshold o'
                                       \<and> card (signers req') = length (trustedAddrs o')
                                    then Returned (o'\<lparr>op_db := db',
                                                     pending := (pending o')(resp_Hash resp := None)\<rparr>)
                                    else Returned (o'\<lparr>op_db := db',
                                                     pending := (pending o')(resp_Hash resp \<mapsto> req')\<rparr>)))))"

definition handleSignRequest :: "OperatorNode \<Rightarrow> int \<Rightarrow> SignRequest \<Rightarrow> OperatorNode" where
  "handleSignRequest o' now req =
     (if pending o' (req_Hash req) = None
      then o'\<lparr>pending := (pending o')(req_Hash req \<mapsto>
                 \<lparr>pr_timestamp = now, signers = {}, pr_data = req\<rparr>)\<rparr>
      else o')"

definition HandleMessage :: "lib \<Rightarrow> OperatorNode \<Rightarrow> int \<Rightarrow> wire \<Rightarrow> OperatorNode result" where
  "HandleMessage l o' now msg =
     (case msg of
        Malformed \<Rightarrow> Returned o'
      | WRequest req \<Rightarrow> Returned (handleSignRequest (o'\<lparr>lastMessageTime := Some now\<rparr>) now req)
      | WResponse resp \<Rightarrow> handleSignResponse l (o'\<lparr>lastMessageTime := Some now\<rparr>) resp
      | WOther t \<Rightarrow> Returned (o'\<lparr>lastMessageTime := Some now\<rparr>))"

definition cleanupExpiredRequests :: "OperatorNode \<Rightarrow> int \<Rightarrow> OperatorNode" where
  "cleanupExpiredRequests o' now =
     o'\<lparr>pending := (\<lambda>hash. case pending o' hash of
                          None \<Rightarrow> None
                        | Some req \<Rightarrow>
                            if now - pr_timestamp req > pendingExpiry o' then None else Some req)\<rparr>"

text \<open>\<open>PubSubService.PublishSignRequest\<close> as far as it touches the coordinator's state.\<close>

definition PublishSignRequest :: "OperatorNode \<Rightarrow> SignRequest \<Rightarrow> OperatorNode" where
  "PublishSignRequest o' sr =
     (case StoreData (op_db o') (req_Hash sr) (req_Data sr) (req_DataStructure sr)
             (req_DataStructureMeta sr) (req_Timestamp sr) (req_DataStructureId sr) of
        Inl e \<Rightarrow> o'
      | Inr db' \<Rightarrow> o'\<lparr>op_db := db'\<rparr>)"

text \<open>
  What happens to a running coordinator: a message arrives, the expiry ticker fires, a
  worker publishes a request, the node shuts down (closing the database), or the disk
  starts or stops rejecting writes.
\<close>

datatype event =
    Inbound int wire
  | ExpiryTick int
  | Publish SignRequest
  | Shutdown
  | DiskFault bool

definition step :: "lib \<Rightarrow> OperatorNode \<Rightarrow> event \<Rightarrow> OperatorNode result" where
  "step l o' ev =
     (case ev of
        Inbound now msg \<Rightarrow> HandleMessage l o' now msg
      | ExpiryTick now \<Rightarrow> Returned (cleanupExpiredRequests o' now)
      | Publish sr \<Rightarrow> Returned (PublishSignRequest o' sr)
      | Shutdown \<Rightarrow> Returned (o'\<lparr>op_db := db_Close (op_db o')\<rparr>)
      | DiskFault b \<Rightarrow> Returned (o'\<lparr>op_db := (op_db o')\<lparr>write_fault := b\<rparr>\<rparr>))"

text \<open>\<open>NewOperatorNode\<close> on a fresh database.\<close>

definition NewOperatorNode :: "string list \<Rightarrow> OperatorNode" where
  "NewOperatorNode trusted =
     \<lparr>pending = Map.empty, pendingExpiry = 300, trustedAddrs = trusted, op_db = empty_db,
      lastMessageTime = None\<rparr>"

inductive reachable :: "lib \<Rightarrow> string list \<Rightarrow> OperatorNode \<Rightarrow> bool" for l trusted where
  reachable_init: "reachable l trusted (NewOperatorNode trusted)"
| reachable_step: "reachable l trusted o' \<Longrightarrow> step l o' ev = Returned o'' \<Longrightarrow> reachable l trusted o''"

text \<open>The loop of \<open>OperatorNode.listen\<close> over the messages the subscription delivers.\<close>

fun listen :: "lib \<Rightarrow> OperatorNode \<Rightarrow> (int \<times> wire) list \<Rightarrow> OperatorNode result" where
  "listen l o' [] = Returned o'"
| "listen l o' ((now, msg) # msgs) =
     (case HandleMessage l o' now msg of
        Panicked e \<Rightarrow> Panicked e
      | Returned o'' \<Rightarrow> listen l o'' msgs)"

text \<open>
  The address a stored signature recovers to, as \<open>handleSignResponse\<close> computes it from
  the hex hash and the hex signature.
\<close>

definition recovered :: "lib \<Rightarrow> string \<Rightarrow> string \<Rightarrow> bytes option" where
  "recovered l hashHex signatureHex =
     (case hex_DecodeString hashHex of
        None \<Rightarrow> None
      | Some hash \<Rightarrow>
          (case verifySignature l (TextHash l hash) signatureHex of
             Inl e \<Rightarrow> None
           | Inr signerAddress \<Rightarrow> Some signerAddress))"

text \<open>The signature map stored under \<open>sig:hash\<close>, if there is one.\<close>

definition stored_sigs :: "OperatorNode \<Rightarrow> string \<Rightarrow> (string \<rightharpoonup> string) option" where
  "stored_sigs o' hash =
     (case map_of (kv (op_db o')) (signaturePrefix @ hash) of
        Some (VSigs m) \<Rightarrow> Some m
      | _ \<Rightarrow> None)"

text \<open>
  Every stored signature recovers to the address it is stored under, and that address
  is trusted.
\<close>

definition sig_inv :: "lib \<Rightarrow> string list \<Rightarrow> OperatorNode \<Rightarrow> bool" where
  "sig_inv l trusted o' =
     (\<forall>h m a s. stored_sigs o' h = Some m \<and> m a = Some s \<longrightarrow>
        (\<exists>addr. recovered l h s = Some addr \<and> Hex l addr = a \<and> isTrusted (Hex l addr) trusted))"

section \<open>Fixtures for evaluating the model\<close>

text \<open>
  Stand-ins for the library functions, used only where the model is evaluated on a
  concrete input; every general theorem below holds for all library functions. The
  stand-in for recovery takes the first 20 bytes of the signature as the address, so
  that, as with ECDSA, several signatures recover to one address.
\<close>

fun fixture_json_value :: "gval \<Rightarrow> string" where
  "fixture_json_value GNil = ''null''"
| "fixture_json_value (GString s) = CHR 0x22 # s @ [CHR 0x22]"
| "fixture_json_value (GInt i) = Itoa i"

fun fixture_join :: "string list \<Rightarrow> string" where
  "fixture_join [] = []"
| "fixture_join [x] = x"
| "fixture_join (x # y # r) = x @ '','' @ fixture_join (y # r)"

definition fixture_lib :: lib where
  "fixture_lib =
     \<lparr>Keccak256 = (\<lambda>b. take 32 (b @ replicate 32 (CHR 0x00))),
      json_Marshal = (\<lambda>vs. Some (''['' @ fixture_join (map fixture_json_value vs) @ '']'')),
      SigToPub = (\<lambda>message sigBytes. Some (take 20 sigBytes)),
      PubkeyToAddress = (\<lambda>pubKey. pubKey),
      Hex = (\<lambda>a. ''0x'' @ hex_encode a)\<rparr>"

text \<open>A signature of 65 bytes: 20 bytes of hex digit \<open>a\<close> twice, 45 of hex digit \<open>c\<close> twice.\<close>

definition fixture_sig :: "char \<Rightarrow> char \<Rightarrow> string" where
  "fixture_sig a c = ''0x'' @ replicate 40 a @ replicate 90 c"

definition fixture_addr :: "char \<Rightarrow> string" where
  "fixture_addr a = ''0x'' @ replicate 40 a"

definition fixture_request :: "string \<Rightarrow> SignRequest" where
  "fixture_request h =
     \<lparr>req_Type = MsgTypeSignRequest, req_Hash = h, req_Data = [], req_DataStructure = [],
      req_DataStructureMeta = [], req_DataStructureId = 0, req_Timestamp = 0\<rparr>"

definition fixture_response :: "string \<Rightarrow> char \<Rightarrow> char \<Rightarrow> SignResponse" where
  "fixture_response h a c =
     \<lparr>resp_Type = MsgTypeSignResponse, resp_Hash = h, resp_Signature = fixture_sig a c,
      resp_PeerID = fixture_addr a\<rparr>"

text \<open>
  The coordinator with two trusted addresses after a request for hash \<open>ab\<close> at time 5
  and a response signed by the first address at time 6.
\<close>

definition fixture_state1 :: OperatorNode where
  "fixture_state1 =
     \<lparr>pending = [''ab'' \<mapsto> \<lparr>pr_timestamp = 5, signers = {fixture_addr CHR ''1''},
                              pr_data = fixture_request ''ab''\<rparr>],
      pendingExpiry = 300,
      trustedAddrs = [fixture_addr CHR ''1'', fixture_addr CHR ''2''],
      op_db = \<lparr>kv = [(''sig:ab'', VSigs [fixture_addr CHR ''1'' \<mapsto> fixture_sig CHR ''1'' CHR ''0''])],
               closed = False, write_fault = False\<rparr>,
      lastMessageTime = Some 6\<rparr>"

text \<open>The same coordinator before the response.\<close>

definition fixture_state0 :: OperatorNode where
  "fixture_state0 =
     \<lparr>pending = [''ab'' \<mapsto> \<lparr>pr_timestamp = 5, signers = {}, pr_data = fixture_request ''ab''\<rparr>],
      pendingExpiry = 300,
      trustedAddrs = [fixture_addr CHR ''1'', fixture_addr CHR ''2''],
      op_db = empty_db,
      lastMessageTime = Some 5\<rparr>"

text \<open>
  A coordinator with one trusted address after a request for hash \<open>ab\<close> and two
  responses signed by that address, with different signatures.
\<close>

definition fixture_state2 :: OperatorNode where
  "fixture_state2 =
     \<lparr>pending = Map.empty,
      pendingExpiry = 300,
      trustedAddrs = [fixture_addr CHR ''1''],
      op_db = \<lparr>kv = [(''sig:ab'', VSigs [fixture_addr CHR ''1'' \<mapsto> fixture_sig CHR ''1'' CHR ''0''])],
               closed = False, write_fault = False\<rparr>,
      lastMessageTime = Some 7\<rparr>"

text \<open>
  The store after \<open>StoreData\<close> of one record with the fields \<open>ticker\<close> and \<open>price\<close>
  under data structure 1.
\<close>

definition fixture_msg1 :: Message where
  "fixture_msg1 =
     \<lparr>msg_Hash = ''h1'', msg_Data = [GString ''SBER'', GString ''100''],
      msg_DataStructure = [''string'', ''uint256''],
      msg_DataStructureMeta = [''ticker'', ''price''], msg_Signatures = None,
      msg_Timestamp = 1700000001\<rparr>"

definition fixture_db1 :: LevelDB where
  "fixture_db1 =
     \<lparr>kv = [(''data:h1'', VMessage fixture_msg1),
             (''ds:1'', VStruct [''string'', ''uint256'']),
             (''index:1:1700000001:h1'', VEmpty),
             (''index:1:price:100:h1'', VEmpty),
             (''index:1:ticker:SBER:h1'', VEmpty)],
      closed = False, write_fault = False\<rparr>"

text \<open>The store after \<open>StoreData\<close> of two records without fields under data structure 1.\<close>

definition fixture_msg :: "string \<Rightarrow> int \<Rightarrow> Message" where
  "fixture_msg h ts =
     \<lparr>msg_Hash = h, msg_Data = [], msg_DataStructure = [], msg_DataStructureMeta = [],
      msg_Signatures = None, msg_Timestamp = ts\<rparr>"

definition fixture_db2 :: LevelDB where
  "fixture_db2 =
     \<lparr>kv = [(''data:h1'', VMessage (fixture_msg ''h1'' 1700000001)),
             (''data:h2'', VMessage (fixture_msg ''h2'' 1700000002)),
             (''ds:1'', VStruct []),
             (''index:1:1700000001:h1'', VEmpty),
             (''index:1:1700000002:h2'', VEmpty)],
      closed = False, write_fault = False\<rparr>"

text \<open>
  A builder for the fields \<open>ticker\<close>, \<open>price\<close> and \<open>timestamp\<close>, and the request it
  builds for the price 3.0 at time 1700000000 with the stand-in library functions.
\<close>

definition fixture_builder :: StockQuoteMessageBuilder where
  "fixture_builder =
     \<lparr>Ticker = ''SBER'', StructureID = ''1'', DestinationChain = 1,
      Structure = [\<lparr>Name = ''ticker'', SolidityType = ''string''\<rparr>,
                   \<lparr>Name = ''price'', SolidityType = ''uint256''\<rparr>,
                   \<lparr>Name = ''timestamp'', SolidityType = ''uint256''\<rparr>]\<rparr>"

definition fixture_built :: SignRequest where
  "fixture_built =
     \<lparr>req_Type = ''sign_request'',
      req_Hash = ''5b2253424552222c2233303030303030303030303030303030303030222c3137'',
      req_Data = [GString ''SBER'', GString ''3000000000000000000'', GInt 1700000000],
      req_DataStructure = [''string'', ''uint256'', ''uint256''],
      req_DataStructureMeta = [''ticker'', ''price'', ''timestamp''],
      req_DataStructureId = 1,
      req_Timestamp = 1700000000\<rparr>"

section \<open>Properties of the store\<close>

lemma map_of_put: "map_of (put k v l) = (map_of l)(k \<mapsto> v)"
  by (induction l) (auto simp: fun_eq_iff)

lemma db_Put_Inr:
  "db_Put db k v = Inr db' \<longleftrightarrow> \<not> closed db \<and> \<not> write_fault db \<and> db' = db\<lparr>kv := put k v (kv db)\<rparr>"
  by (auto simp: db_Put_def)

lemma unmarshal_sigs_Some: "unmarshal_sigs v = Some m \<longleftrightarrow> v = VSigs m"
  by (cases v) auto

text \<open>
  Claim C10. For a hash with no signature entry in an open store, \<open>GetSignatures\<close>
  returns a non-nil empty map and \<open>exists = false\<close>. It returns \<open>exists = true\<close>
  exactly when a signature object is stored under \<open>sig:hash\<close> and decodes, and the
  map returned is then the stored one.
\<close>

theorem GetSignatures_exists_iff_stored:
  "(\<not> closed db \<and> map_of (kv db) (signaturePrefix @ hash) = None
      \<longrightarrow> GetSignatures db hash = (Some Map.empty, False))
   \<and> (snd (GetSignatures db hash)
      \<longleftrightarrow> (\<exists>sigs. \<not> closed db \<and> map_of (kv db) (signaturePrefix @ hash) = Some (VSigs sigs)))
   \<and> (\<forall>sigs. \<not> closed db \<and> map_of (kv db) (signaturePrefix @ hash) = Some (VSigs sigs)
      \<longrightarrow> GetSignatures db hash = (Some sigs, True))"
  by (auto simp: GetSignatures_def db_Get_def unmarshal_sigs_Some
           split: option.splits sum.splits if_splits)

theorem GetSignatures_exists_iff_stored_witness:
  "GetSignatures empty_db ''ab'' = (Some Map.empty, False)
   \<and> GetSignatures (empty_db\<lparr>kv := [(''sig:ab'', VSigs [''0xA1'' \<mapsto> ''0x01''])]\<rparr>) ''ab''
       = (Some [''0xA1'' \<mapsto> ''0x01''], True)
   \<and> \<not> snd (GetSignatures (empty_db\<lparr>kv := [(''sig:ab'', VCorrupt)]\<rparr>) ''ab'')"
  using GetSignatures_exists_iff_stored [of empty_db "''ab''"]
        GetSignatures_exists_iff_stored
          [of "empty_db\<lparr>kv := [(''sig:ab'', VSigs [''0xA1'' \<mapsto> ''0x01''])]\<rparr>" "''ab''"]
        GetSignatures_exists_iff_stored [of "empty_db\<lparr>kv := [(''sig:ab'', VCorrupt)]\<rparr>" "''ab''"]
  by (simp add: empty_db_def signaturePrefix_def)

lemma GetAllMessages_loop_eq:
  "count < max 1 limit \<Longrightarrow>
   GetAllMessages_loop db limit keys skip count messages =
     messages @ take (nat (max 1 (limit - count)))
       (List.map_filter (decode_joined db) (drop (nat skip) (joinable_entries db keys)))"
proof (induction keys arbitrary: skip count messages)
  case Nil
  then show ?case by (simp add: joinable_entries_def map_filter_simps)
next
  case (Cons key keys)
  show ?case
  proof (cases "length (Split key CHR '':'') < 4")
    case True
    with Cons show ?thesis by (simp add: joinable_entries_def map_filter_simps Let_def)
  next
    case p: False
    show ?thesis
    proof (cases "db_Get db (dataPrefix @ Split key CHR '':'' ! 3)")
      case (Inl e)
      with p Cons show ?thesis by (simp add: joinable_entries_def map_filter_simps Let_def)
    next
      case (Inr v)
      then have j: "joinable_entries db (key # keys) = v # joinable_entries db keys"
        using p by (simp add: joinable_entries_def map_filter_simps Let_def)
      show ?thesis
      proof (cases "skip > 0")
        case True
        then have d: "drop (nat skip) (v # joinable_entries db keys)
                       = drop (nat (skip - 1)) (joinable_entries db keys)"
          by (cases "nat skip") (auto simp: nat_diff_distrib)
        from True p Inr Cons show ?thesis
          by (simp add: j d Let_def del: drop_Suc_Cons)
      next
        case s: False
        show ?thesis
        proof (cases "unmarshal_Message v")
          case None
          with s p Inr Cons show ?thesis
            by (simp add: j Let_def map_filter_simps decode_joined_def)
        next
          case (Some msg)
          then have dj: "decode_joined db v = Some (join_signatures db msg)"
            by (simp add: decode_joined_def)
          show ?thesis
          proof (cases "count + 1 \<ge> limit")
            case True
            with Cons.prems have "nat (max 1 (limit - count)) = 1" by auto
            with True s p Inr Some show ?thesis
              by (simp add: j dj Let_def map_filter_simps)
          next
            case False
            then have c: "count + 1 < max 1 limit" by simp
            from False have n: "nat (max 1 (limit - count)) = Suc (nat (max 1 (limit - (count + 1))))"
              by auto
            have "GetAllMessages_loop db limit (key # keys) skip count messages
                    = GetAllMessages_loop db limit keys skip (count + 1)
                        (messages @ [join_signatures db msg])"
              using False s p Inr Some by (simp add: Let_def)
            also have "\<dots> = (messages @ [join_signatures db msg])
                        @ take (nat (max 1 (limit - (count + 1))))
                            (List.map_filter (decode_joined db)
                               (drop (nat skip) (joinable_entries db keys)))"
              by (rule Cons.IH[OF c])
            also have "\<dots> = messages @ take (nat (max 1 (limit - count)))
                        (List.map_filter (decode_joined db)
                           (drop (nat skip) (joinable_entries db (key # keys))))"
              using s unfolding n j by (simp add: dj map_filter_simps)
            finally show ?thesis .
          qed
        qed
      qed
    qed
  qed
qed

lemma wrap64_id: "- (2 ^ 63) \<le> i \<Longrightarrow> i < 2 ^ 63 \<Longrightarrow> wrap64 i = i"
  by (simp add: wrap64_def)

lemma digit_chars:
  "char_of (48::nat) = CHR ''0''" "char_of (49::nat) = CHR ''1''" "char_of (50::nat) = CHR ''2''"
  "char_of (51::nat) = CHR ''3''" "char_of (52::nat) = CHR ''4''" "char_of (53::nat) = CHR ''5''"
  "char_of (54::nat) = CHR ''6''" "char_of (55::nat) = CHR ''7''" "char_of (56::nat) = CHR ''8''"
  "char_of (57::nat) = CHR ''9''"
  by code_simp+

lemma fixture_Itoa: "Itoa 1 = ''1''" "Itoa 1700000001 = ''1700000001''" "Itoa 1700000002 = ''1700000002''"
  by (simp_all add: Itoa_def dec.simps digit_chars)

lemma fixture_db1_stored:
  "StoreData empty_db ''h1'' [GString ''SBER'', GString ''100''] [''string'', ''uint256'']
     [''ticker'', ''price''] 1700000001 1 = Inr fixture_db1"
  by (simp add: StoreData_def Let_def db_Has_def db_Put_def empty_db_def build_dataMap_def
        indexKeys_def timestampIndexKey_def fieldIndexKey_def fixture_Itoa fixture_db1_def
        fixture_msg1_def dataStructPrefix_def dataPrefix_def indexPrefix_def)

lemma fixture_db2_stored:
  "(case StoreData empty_db ''h1'' [] [] [] 1700000001 1 of
      Inl e \<Rightarrow> Inl e
    | Inr d \<Rightarrow> StoreData d ''h2'' [] [] [] 1700000002 1) = Inr fixture_db2"
  by (simp add: StoreData_def Let_def db_Has_def db_Put_def empty_db_def build_dataMap_def
        indexKeys_def timestampIndexKey_def fieldIndexKey_def fixture_Itoa fixture_db2_def
        fixture_msg_def dataStructPrefix_def dataPrefix_def indexPrefix_def)

lemma fixture_iter1:
  "iter_keys fixture_db1 (indexPrefix @ Itoa 1 @ '':'')
     = [''index:1:1700000001:h1'', ''index:1:price:100:h1'', ''index:1:ticker:SBER:h1'']"
  by code_simp

lemma fixture_iter2:
  "iter_keys fixture_db2 (indexPrefix @ Itoa 1 @ '':'')
     = [''index:1:1700000001:h1'', ''index:1:1700000002:h2'']"
  by code_simp

lemma fixture_split:
  "Split ''index:1:1700000001:h1'' CHR '':'' = [''index'', ''1'', ''1700000001'', ''h1'']"
  "Split ''index:1:1700000002:h2'' CHR '':'' = [''index'', ''1'', ''1700000002'', ''h2'']"
  "Split ''index:1:price:100:h1'' CHR '':'' = [''index'', ''1'', ''price'', ''100'', ''h1'']"
  "Split ''index:1:ticker:SBER:h1'' CHR '':'' = [''index'', ''1'', ''ticker'', ''SBER'', ''h1'']"
  by code_simp+

lemma fixture_get1:
  "db_Get fixture_db1 (dataPrefix @ ''SBER'') = Inl ErrNotFound"
  "db_Get fixture_db1 (dataPrefix @ ''100'') = Inl ErrNotFound"
  "db_Get fixture_db1 (dataPrefix @ ''h1'') = Inr (VMessage fixture_msg1)"
  "GetSignatures fixture_db1 ''h1'' = (Some Map.empty, False)"
  by (simp_all add: db_Get_def GetSignatures_def fixture_db1_def dataPrefix_def signaturePrefix_def)

lemma fixture_get2:
  "db_Get fixture_db2 (dataPrefix @ ''h1'') = Inr (VMessage (fixture_msg ''h1'' 1700000001))"
  "db_Get fixture_db2 (dataPrefix @ ''h2'') = Inr (VMessage (fixture_msg ''h2'' 1700000002))"
  "GetSignatures fixture_db2 ''h1'' = (Some Map.empty, False)"
  "GetSignatures fixture_db2 ''h2'' = (Some Map.empty, False)"
  by (simp_all add: db_Get_def GetSignatures_def fixture_db2_def dataPrefix_def signaturePrefix_def)

lemma fixture_latest1:
  "GetLatestMessage fixture_db1 1 = (zero_Message, False, Some (DBError ErrNotFound))"
  by (simp add: GetLatestMessage_def fixture_iter1 fixture_split fixture_get1
      del: Split.simps)

lemma fixture_all1:
  "GetAllMessages fixture_db1 1 1 10 = [fixture_msg1]"
  by (simp add: GetAllMessages_def fixture_iter1 fixture_split fixture_get1
       wrap64_def join_signatures_def fixture_msg1_def
      del: Split.simps)

lemma fixture_all2:
  "GetAllMessages fixture_db2 1 1 0 = [fixture_msg ''h2'' 1700000002]"
  "GetAllMessages fixture_db2 1 1 10 = [fixture_msg ''h2'' 1700000002, fixture_msg ''h1'' 1700000001]"
  by (simp_all add: GetAllMessages_def fixture_iter2 fixture_split fixture_get2
       wrap64_def join_signatures_def fixture_msg_def
      del: Split.simps)

lemma map_fst_map_set:
  "map fst (map_set k v m) = (if k \<in> fst ` set m then map fst m else map fst m @ [k])"
  by (induction m) (fastforce simp: image_iff)+

lemma build_dataMap_keys_aux:
  "distinct (map fst m) \<Longrightarrow>
     distinct (map fst (foldl (\<lambda>m (field, v). map_set field v m) m xs))
   \<and> set (map fst (foldl (\<lambda>m (field, v). map_set field v m) m xs))
       = set (map fst m) \<union> set (map fst xs)"
proof (induction xs arbitrary: m)
  case Nil
  then show ?case by simp
next
  case (Cons x xs)
  obtain f v where x: "x = (f, v)" by (cases x)
  have d: "distinct (map fst (map_set f v m))"
    using Cons.prems by (simp add: map_fst_map_set)
  have s: "set (map fst (map_set f v m)) = insert f (set (map fst m))"
    by (auto simp: map_fst_map_set)
  from Cons.IH[OF d] show ?case
    unfolding s by (simp add: x)
qed

lemma build_dataMap_keys:
  "distinct (map fst (build_dataMap meta dat))"
  "set (map fst (build_dataMap meta dat)) = set (take (length dat) meta)"
proof -
  have t: "map fst (zip meta dat) = take (length dat) meta"
    by (simp add: map_fst_zip_take min_def)
  from build_dataMap_keys_aux[of "[]" "zip meta dat"]
  show "distinct (map fst (build_dataMap meta dat))"
    and "set (map fst (build_dataMap meta dat)) = set (take (length dat) meta)"
    unfolding t by (simp_all add: build_dataMap_def)
qed

lemma map_fst_put:
  "sorted (map fst l) \<Longrightarrow>
     map fst (put k v l) = (if k \<in> set (map fst l) then map fst l else insort k (map fst l))"
proof (induction l)
  case Nil
  then show ?case by simp
next
  case (Cons p l)
  obtain k' v' where p: "p = (k', v')" by (cases p)
  from Cons.prems have s: "sorted (map fst l)" and le: "\<forall>x\<in>set (map fst l). k' \<le> x"
    by (simp_all add: p)
  show ?case
  proof (cases "k = k'")
    case True
    then show ?thesis by (simp add: p)
  next
    case ne: False
    show ?thesis
    proof (cases "k < k'")
      case True
      with le have "k \<notin> set (map fst l)" by auto
      with True ne show ?thesis by (simp add: p)
    next
      case False
      with ne have "\<not> k \<le> k'" by auto
      with False ne Cons.IH[OF s] show ?thesis by (simp add: p)
    qed
  qed
qed

lemma db_Put_wf:
  assumes "db_wf db" "db_Put db k v = Inr db'"
  shows "db_wf db' \<and> set (map fst (kv db')) = insert k (set (map fst (kv db))) \<and> \<not> closed db'"
proof -
  from assms(2) have nc: "\<not> closed db" and kv: "kv db' = put k v (kv db)" and c: "closed db' = closed db"
    by (auto simp: db_Put_Inr)
  from assms(1) have s: "sorted (map fst (kv db))" and d: "distinct (map fst (kv db))"
    by (simp_all add: db_wf_def)
  have m: "map fst (kv db') = (if k \<in> set (map fst (kv db)) then map fst (kv db)
                                else insort k (map fst (kv db)))"
    unfolding kv by (rule map_fst_put[OF s])
  have "sorted (map fst (kv db'))" unfolding m using s by (simp add: sorted_insort)
  moreover have "distinct (map fst (kv db'))" unfolding m using d by (simp add: distinct_insort)
  moreover have "set (map fst (kv db')) = insert k (set (map fst (kv db)))"
    unfolding m by (auto simp: set_insort_key)
  ultimately show ?thesis using nc c by (simp add: db_wf_def)
qed


lemma MessageCount_stats_step: "MessageCount (stats_step db thr s k) = MessageCount s + 1"
  by (simp add: stats_step_def Let_def split: option.splits prod.splits)

lemma MessageCount_foldl:
  "MessageCount (foldl (stats_step db thr) s ks) = MessageCount s + int (length ks)"
  by (induction ks arbitrary: s) (simp_all add: MessageCount_stats_step)

lemma MessageCount_iter_keys:
  "MessageCount (GetDataStructureStats db dsid thr)
     = int (length (iter_keys db (indexPrefix @ Itoa dsid @ '':'')))"
  by (simp add: GetDataStructureStats_def MessageCount_foldl)

lemma put_index_keys_wf:
  "db_wf db \<Longrightarrow> put_index_keys db ks = Inr db' \<Longrightarrow> \<not> closed db \<Longrightarrow>
     db_wf db' \<and> set (map fst (kv db')) = set ks \<union> set (map fst (kv db)) \<and> \<not> closed db'"
proof (induction ks arbitrary: db)
  case Nil
  then show ?case by simp
next
  case (Cons k ks)
  from Cons.prems obtain d where d: "db_Put db k VEmpty = Inr d" and r: "put_index_keys d ks = Inr db'"
    by (auto split: sum.splits)
  from db_Put_wf[OF Cons.prems(1) d]
  have wd: "db_wf d" and sd: "set (map fst (kv d)) = insert k (set (map fst (kv db)))"
    and cd: "\<not> closed d" by simp_all
  from Cons.IH[OF wd r cd] show ?case unfolding sd by auto
qed

lemma db_Has_key: "db_Has db k \<Longrightarrow> k \<in> set (map fst (kv db))"
proof -
  assume "db_Has db k"
  then obtain v where "map_of (kv db) k = Some v" by (auto simp: db_Has_def)
  then have "(k, v) \<in> set (kv db)" by (rule map_of_SomeD)
  then show ?thesis by force
qed


lemma StoreData_steps:
  assumes "StoreData db hash dat ds meta ts dsid = Inr db'"
  shows "\<exists>db1 db2 msg.
           (if \<not> db_Has db (dataStructPrefix @ Itoa dsid)
            then db_Put db (dataStructPrefix @ Itoa dsid) (VStruct ds) else Inr db) = Inr db1
         \<and> db_Put db1 (dataPrefix @ hash) (VMessage msg) = Inr db2
         \<and> put_index_keys db2 (indexKeys dsid ts hash (build_dataMap meta dat)) = Inr db'"
  using assms unfolding StoreData_def Let_def
  by (auto split: sum.splits) blast+

lemma StoreData_keys:
  assumes wf: "db_wf db" and sd: "StoreData db hash dat ds meta ts dsid = Inr db'"
  shows "db_wf db' \<and> \<not> closed db' \<and> \<not> closed db
       \<and> set (map fst (kv db')) =
           set (map fst (kv db)) \<union> {dataStructPrefix @ Itoa dsid, dataPrefix @ hash}
             \<union> set (indexKeys dsid ts hash (build_dataMap meta dat))"
proof -
  let ?dsKey = "dataStructPrefix @ Itoa dsid"
  from StoreData_steps[OF sd] obtain db1 db2 msg where
    s1: "(if \<not> db_Has db ?dsKey then db_Put db ?dsKey (VStruct ds) else Inr db) = Inr db1"
    and s2: "db_Put db1 (dataPrefix @ hash) (VMessage msg) = Inr db2"
    and s3: "put_index_keys db2 (indexKeys dsid ts hash (build_dataMap meta dat)) = Inr db'"
    by blast
  have w1: "db_wf db1 \<and> set (map fst (kv db1)) = insert ?dsKey (set (map fst (kv db)))
            \<and> closed db1 = closed db"
  proof (cases "db_Has db ?dsKey")
    case True
    with s1 have e: "db1 = db" by simp
    from db_Has_key[OF True] have "insert ?dsKey (set (map fst (kv db))) = set (map fst (kv db))"
      by blast
    with e wf show ?thesis by simp
  next
    case False
    with s1 have p: "db_Put db ?dsKey (VStruct ds) = Inr db1" by simp
    from db_Put_wf[OF wf p] p show ?thesis by (simp add: db_Put_Inr)
  qed
  then have wf1: "db_wf db1" and k1: "set (map fst (kv db1)) = insert ?dsKey (set (map fst (kv db)))"
    and c1: "closed db1 = closed db" by simp_all
  from db_Put_wf[OF wf1 s2] have wf2: "db_wf db2" and c2: "\<not> closed db2"
    and k2: "set (map fst (kv db2)) = insert (dataPrefix @ hash) (set (map fst (kv db1)))"
    by simp_all
  from s2 c1 have c0: "\<not> closed db" by (simp add: db_Put_Inr)
  from put_index_keys_wf[OF wf2 s3 c2] have wf3: "db_wf db'" and c3: "\<not> closed db'"
    and k3: "set (map fst (kv db')) = set (indexKeys dsid ts hash (build_dataMap meta dat))
               \<union> set (map fst (kv db2))"
    by simp_all
  from k1 k2 k3 have "set (map fst (kv db')) =
           set (map fst (kv db)) \<union> {?dsKey, dataPrefix @ hash}
             \<union> set (indexKeys dsid ts hash (build_dataMap meta dat))"
    by blast
  with wf3 c3 c0 show ?thesis by blast
qed

lemma index_prefix_facts:
  "\<not> HasPrefix (dataStructPrefix @ x) (indexPrefix @ y)"
  "\<not> HasPrefix (dataPrefix @ x) (indexPrefix @ y)"
  "HasPrefix (timestampIndexKey dsid ts h) (indexPrefix @ Itoa dsid @ '':'')"
  "HasPrefix (fieldIndexKey dsid f v h) (indexPrefix @ Itoa dsid @ '':'')"
  by (simp_all add: HasPrefix_def dataStructPrefix_def dataPrefix_def indexPrefix_def
        timestampIndexKey_def fieldIndexKey_def)

lemma indexKeys_prefix:
  "\<forall>k\<in>set (indexKeys dsid ts hash dm). HasPrefix k (indexPrefix @ Itoa dsid @ '':'')"
  by (auto simp: indexKeys_def index_prefix_facts)


lemma iter_keys_StoreData:
  assumes wf: "db_wf db" and sd: "StoreData db hash dat ds meta ts dsid = Inr db'"
  shows "distinct (iter_keys db' (indexPrefix @ Itoa dsid @ '':''))
       \<and> set (iter_keys db' (indexPrefix @ Itoa dsid @ '':''))
           = set (iter_keys db (indexPrefix @ Itoa dsid @ '':''))
             \<union> set (indexKeys dsid ts hash (build_dataMap meta dat))"
proof -
  let ?P = "indexPrefix @ Itoa dsid @ '':''"
  let ?ks = "indexKeys dsid ts hash (build_dataMap meta dat)"
  from StoreData_keys[OF wf sd]
  have wf': "db_wf db'" and nc: "\<not> closed db'" and nc0: "\<not> closed db"
    and keys: "set (map fst (kv db')) =
         set (map fst (kv db)) \<union> {dataStructPrefix @ Itoa dsid, dataPrefix @ hash} \<union> set ?ks"
    by simp_all
  from wf' nc have d: "distinct (iter_keys db' ?P)"
    by (simp add: iter_keys_def db_wf_def)
  have "set (iter_keys db' ?P) = {k \<in> set (map fst (kv db')). HasPrefix k ?P}"
    using nc by (simp add: iter_keys_def)
  also have "\<dots> = {k \<in> set (map fst (kv db)). HasPrefix k ?P} \<union> {k \<in> set ?ks. HasPrefix k ?P}"
    unfolding keys using index_prefix_facts(1,2)[of _ "Itoa dsid @ '':''"] by auto
  also have "{k \<in> set ?ks. HasPrefix k ?P} = set ?ks"
    using indexKeys_prefix[of dsid ts hash "build_dataMap meta dat"] by blast
  also have "{k \<in> set (map fst (kv db)). HasPrefix k ?P} = set (iter_keys db ?P)"
    using nc0 by (simp add: iter_keys_def)
  finally show ?thesis using d by simp
qed

lemma fixture_dataMap1:
  "build_dataMap [''ticker'', ''price''] [GString ''SBER'', GString ''100'']
     = [(''ticker'', GString ''SBER''), (''price'', GString ''100'')]"
  by (simp add: build_dataMap_def)

lemma fixture_indexKeys1:
  "indexKeys 1 1700000001 ''h1'' [(''ticker'', GString ''SBER''), (''price'', GString ''100'')]
     = [''index:1:1700000001:h1'', ''index:1:ticker:SBER:h1'', ''index:1:price:100:h1'']"
  by (simp add: indexKeys_def timestampIndexKey_def fieldIndexKey_def fixture_Itoa indexPrefix_def)

section \<open>Properties of the message builder\<close>

lemma bitlen_le_iff: "bitlen n \<le> k \<longleftrightarrow> n < 2 ^ k"
proof (induction n arbitrary: k rule: bitlen.induct)
  case (1 n)
  show ?case
  proof (cases "n = 0")
    case True
    then show ?thesis by (subst bitlen.simps) simp
  next
    case False
    show ?thesis
    proof (cases k)
      case 0
      with False show ?thesis by (subst bitlen.simps) simp
    next
      case (Suc k')
      have d: "\<And>x::nat. (n div 2 < x) = (n < 2 * x)" by presburger
      have "bitlen n = Suc (bitlen (n div 2))"
        using False by (subst bitlen.simps) simp
      with 1[OF False, of k'] Suc show ?thesis
        by (simp add: d)
    qed
  qed
qed

lemma bitlen_lower: "n > 0 \<Longrightarrow> 2 ^ (bitlen n - 1) \<le> n"
proof -
  assume n: "n > 0"
  have "\<not> bitlen n \<le> bitlen n - 1"
  proof
    assume "bitlen n \<le> bitlen n - 1"
    then have "bitlen n = 0" by simp
    with n show False by (subst (asm) bitlen.simps) simp
  qed
  then show ?thesis unfolding bitlen_le_iff by simp
qed

lemma round_to_exact:
  "bitlen m \<le> prec \<or> 2 ^ (bitlen m - prec) dvd m \<Longrightarrow> round_to prec m = m"
  by (auto simp: round_to_def Let_def mod_eq_0_iff_dvd)

lemma round_to_error:
  assumes "\<not> bitlen m \<le> prec"
  shows "\<bar>int (round_to prec m) - int m\<bar> \<le> 2 ^ (bitlen m - prec - 1)"
proof -
  define s where "s = bitlen m - prec"
  define p where "p = (2::nat) ^ s"
  define q where "q = m div p"
  define r where "r = m mod p"
  define h where "h = (2::nat) ^ (s - 1)"
  from assms have "s \<ge> 1" by (simp add: s_def)
  then obtain s' where s': "s = Suc s'" by (cases s) auto
  have two: "p = 2 * h" by (simp add: p_def h_def s')
  have m: "m = q * p + r" by (simp add: q_def r_def)
  have r: "r < p" by (simp add: r_def p_def)
  have R: "round_to prec m = (if r > h \<or> (r = h \<and> odd q) then q + 1 else q) * p"
    using assms by (simp add: round_to_def Let_def s_def p_def q_def r_def h_def)
  have hh: "(2::int) ^ (bitlen m - prec - 1) = int h"
    by (simp add: h_def s_def)
  show ?thesis
  proof (cases "r > h \<or> (r = h \<and> odd q)")
    case True
    then have R': "int (round_to prec m) = int q * int p + int p"
      by (simp add: R algebra_simps)
    have M: "int m = int q * int p + int r"
      by (subst m) simp
    from True have "h \<le> r" by auto
    with r two show ?thesis unfolding hh R' M by simp
  next
    case False
    then have R': "int (round_to prec m) = int q * int p"
      by (auto simp add: R)
    have M: "int m = int q * int p + int r"
      by (subst m) simp
    from False have "r \<le> h" by auto
    then show ?thesis unfolding hh R' M by simp
  qed
qed


lemma two_powr_int:
  "(2::real) powr real_of_int e = (if e \<ge> 0 then 2 ^ nat e else 1 / 2 ^ nat (- e))"
proof (cases "e \<ge> 0")
  case True
  then obtain n where "e = int n" by (auto elim: nonneg_int_cases)
  then show ?thesis by (simp add: powr_realpow)
next
  case False
  then have "e = - int (nat (- e))" by simp
  then obtain n where "e = - int n" ..
  with False show ?thesis by (simp add: powr_minus_divide powr_realpow)
qed

lemma floor_scaled:
  "\<lfloor>real n * 2 powr real_of_int e\<rfloor>
     = (if e \<ge> 0 then int n * 2 ^ nat e else int n div 2 ^ nat (- e))"
proof (cases "e \<ge> 0")
  case True
  have "real n * 2 ^ nat e = real_of_int (int n * 2 ^ nat e)" by simp
  then have "\<lfloor>real n * 2 ^ nat e\<rfloor> = int n * 2 ^ nat e"
    by (simp only: floor_of_int)
  with True show ?thesis by (simp add: two_powr_int)
next
  case False
  have "real n * (1 / 2 ^ nat (- e)) = real_of_int (int n) / real_of_int (2 ^ nat (- e))"
    by simp
  then have "\<lfloor>real n * (1 / 2 ^ nat (- e))\<rfloor> = int n div 2 ^ nat (- e)"
    by (simp only: floor_divide_of_int_eq)
  with False show ?thesis by (simp add: two_powr_int)
qed

lemma bitlen_wei: "bitlen (1000000000000000000::nat) = 60"
proof -
  have "\<not> bitlen (1000000000000000000::nat) \<le> 59" "bitlen (1000000000000000000::nat) \<le> 60"
    unfolding bitlen_le_iff by simp_all
  then show ?thesis by linarith
qed

lemma FloatToWei_finite:
  "FloatToWei (Finite neg m e) =
     Returned (Float_Int (BFinite 64 neg (round_to 64 (m * 10 ^ 18)) e) 0)"
  by (simp add: FloatToWei_def SetFloat64_def SetInt_def Mul_def prec_of_def bitlen_wei)

lemma FloatToWei_floor:
  "FloatToWei (Finite False m e) =
     Returned \<lfloor>real (round_to 64 (m * 10 ^ 18)) * 2 powr real_of_int e\<rfloor>"
  unfolding FloatToWei_finite floor_scaled by (simp add: Float_Int_def)


lemma float64_value_wei:
  "float64_value False m e * 10 ^ 18 = real (m * 10 ^ 18) * 2 powr real_of_int e"
proof -
  have "real (m * 10 ^ 18) = real m * 10 ^ 18" by simp
  then show ?thesis unfolding float64_value_def by (simp only: if_False mult_1 ac_simps)
qed

lemma round_to_relative_error:
  "\<bar>real (round_to 64 p) - real p\<bar> \<le> real p / 2 ^ 64"
proof (cases "bitlen p \<le> 64")
  case True
  then show ?thesis by (simp add: round_to_exact)
next
  case False
  define l where "l = bitlen p"
  from False have l: "l \<ge> 65" by (simp add: l_def)
  then obtain k where k: "l = k + 65" by (metis add.commute le_Suc_ex)
  from False have "p > 0" by (cases "p = 0") (simp_all add: bitlen_le_iff)
  from bitlen_lower[OF this] have lo: "2 ^ (k + 64) \<le> p"
    by (simp add: l_def[symmetric] k add.commute)
  from round_to_error[OF False] have "\<bar>int (round_to 64 p) - int p\<bar> \<le> 2 ^ k"
    by (simp add: l_def[symmetric] k)
  then have "real_of_int \<bar>int (round_to 64 p) - int p\<bar> \<le> real_of_int (2 ^ k)"
    by (rule of_int_le_iff[THEN iffD2])
  then have e: "\<bar>real (round_to 64 p) - real p\<bar> \<le> 2 ^ k" by simp
  from lo have "real (2 ^ (k + 64)) \<le> real p" by (rule of_nat_le_iff[THEN iffD2])
  then have "(2::real) ^ k * 2 ^ 64 \<le> real p" by (simp add: power_add)
  then have "(2::real) ^ k \<le> real p / 2 ^ 64" by (simp add: pos_le_divide_eq)
  with e show ?thesis by linarith
qed

lemma bitlen_counterexample: "bitlen (2639707515964621 * 10 ^ 18) = 112"
proof -
  have "\<not> bitlen (2639707515964621 * 10 ^ 18) \<le> 111" "bitlen (2639707515964621 * 10 ^ 18) \<le> 112"
    unfolding bitlen_le_iff by simp_all
  then show ?thesis by linarith
qed

lemma round_to_counterexample:
  "round_to 64 (2639707515964621 * 10 ^ 18) = 2639707515964621000128708441276416"
  unfolding round_to_def bitlen_counterexample Let_def by simp

lemma nat_Bytes_0: "nat_Bytes 0 = []"
  by (subst nat_Bytes.simps) simp

lemma nat_Bytes_pos: "n > 0 \<Longrightarrow> nat_Bytes n = nat_Bytes (n div 256) @ [char_of n]"
  by (subst nat_Bytes.simps) simp

lemma nat_Bytes_padded:
  "n < 256 ^ k \<Longrightarrow>
     length (nat_Bytes n) \<le> k
   \<and> replicate (k - length (nat_Bytes n)) (CHR 0x00) @ nat_Bytes n
       = map (\<lambda>i. char_of (n div 256 ^ (k - 1 - i))) [0..<k]"
proof (induction k arbitrary: n)
  case 0
  then show ?case by (simp add: nat_Bytes_0)
next
  case (Suc k)
  show ?case
  proof (cases "n = 0")
    case True
    have z: "char_of (0::nat) = CHR 0x00" by (simp add: char_of_def)
    have "map (\<lambda>i. char_of ((0::nat) div 256 ^ (Suc k - 1 - i))) [0..<Suc k] = replicate (Suc k) (CHR 0x00)"
      by (simp only: div_0 z map_replicate_const length_upt diff_zero)
    with True show ?thesis by (simp add: nat_Bytes_0)
  next
    case False
    then have pos: "n > 0" by simp
    from Suc.prems have "n div 256 < 256 ^ k" by (simp add: less_mult_imp_div_less mult.commute)
    from Suc.IH[OF this] have len: "length (nat_Bytes (n div 256)) \<le> k"
      and eq: "replicate (k - length (nat_Bytes (n div 256))) (CHR 0x00) @ nat_Bytes (n div 256)
                = map (\<lambda>i. char_of (n div 256 div 256 ^ (k - 1 - i))) [0..<k]"
      by simp_all
    have d: "\<And>i. i < k \<Longrightarrow> n div 256 div 256 ^ (k - 1 - i) = n div 256 ^ (k - i)"
    proof -
      fix i assume "i < k"
      then have "k - i = Suc (k - 1 - i)" by simp
      then show "n div 256 div 256 ^ (k - 1 - i) = n div 256 ^ (k - i)"
        by (simp add: div_mult2_eq)
    qed
    have "map (\<lambda>i. char_of (n div 256 ^ (Suc k - 1 - i))) [0..<Suc k]
            = map (\<lambda>i. char_of (n div 256 ^ (k - i))) [0..<k] @ [char_of n]"
      by simp
    also have "map (\<lambda>i. char_of (n div 256 ^ (k - i))) [0..<k]
                 = map (\<lambda>i. char_of (n div 256 div 256 ^ (k - 1 - i))) [0..<k]"
    proof (rule map_cong[OF refl])
      fix i assume "i \<in> set [0..<k]"
      then have "i < k" by simp
      from d[OF this] show "char_of (n div 256 ^ (k - i)) = char_of (n div 256 div 256 ^ (k - 1 - i))"
        by (simp only:)
    qed
    finally have r: "map (\<lambda>i. char_of (n div 256 ^ (Suc k - 1 - i))) [0..<Suc k]
            = (replicate (k - length (nat_Bytes (n div 256))) (CHR 0x00) @ nat_Bytes (n div 256))
               @ [char_of n]"
      by (simp only: eq)
    from len r show ?thesis by (simp add: nat_Bytes_pos[OF pos])
  qed
qed

lemma padTo32Bytes_big_Bytes:
  assumes "0 \<le> i" "i < 2 ^ 256"
  shows "padTo32Bytes (big_Bytes i) = Returned (be32 (nat i))"
proof -
  have e: "(256::nat) ^ 32 = 2 ^ 256" by simp
  from assms have "nat \<bar>i\<bar> = nat i" "nat i < 256 ^ 32"
    unfolding e by (simp_all add: nat_less_iff)
  with nat_Bytes_padded[of "nat i" 32] show ?thesis
    by (simp add: padTo32Bytes_def big_Bytes_def be32_def)
qed

lemma calculateHash_spec:
  assumes "0 \<le> ts" "ts < 2 ^ 256" "json_Marshal l dat = Some js"
  shows "calculateHash l dat ts = Returned (hex_encode (Keccak256 l (spec_packed js ts)))"
  using assms padTo32Bytes_big_Bytes[OF assms(1,2)]
  by (simp add: calculateHash_def SolidityKeccak256_def pack_value_def spec_packed_def)


lemma of_char_less_256: "(of_char c :: nat) < 256"
proof -
  have "(of_char (char_of (of_char c :: nat)) :: nat) = (of_char c :: nat) mod 256"
    by (rule of_char_of)
  then have "(of_char c :: nat) = (of_char c :: nat) mod 256" by simp
  then show ?thesis by (metis mod_less_divisor zero_less_numeral)
qed

lemma hexdigit_table: "\<forall>n\<in>set [0..<16]. hexdigit n \<in> set ''0123456789abcdef''"
  by code_simp

lemma hexdigit_lowercase: "n < 16 \<Longrightarrow> hexdigit n \<in> set ''0123456789abcdef''"
proof -
  assume "n < 16"
  then have "n \<in> set [0..<16]" by simp
  with hexdigit_table show ?thesis by blast
qed

lemma hex_encode_lowercase: "set (hex_encode b) \<subseteq> set ''0123456789abcdef''"
proof
  fix x assume "x \<in> set (hex_encode b)"
  then obtain c where c: "x = hexdigit ((of_char c :: nat) div 16)
                        \<or> x = hexdigit ((of_char c :: nat) mod 16)"
    unfolding hex_encode_def by auto
  have "(of_char c :: nat) div 16 < 16"
    using of_char_less_256[of c] by (simp add: div_less_iff_less_mult)
  then have a: "hexdigit ((of_char c :: nat) div 16) \<in> set ''0123456789abcdef''"
    by (rule hexdigit_lowercase)
  have "(of_char c :: nat) mod 16 < 16" by simp
  then have b: "hexdigit ((of_char c :: nat) mod 16) \<in> set ''0123456789abcdef''"
    by (rule hexdigit_lowercase)
  from c a b show "x \<in> set ''0123456789abcdef''" by blast
qed

lemma fixture_wei: "FloatToWei (Finite False 3 0) = Returned 3000000000000000000"
proof -
  have "bitlen (3 * 10 ^ 18) \<le> 64" unfolding bitlen_le_iff by simp
  then have "round_to 64 (3 * 10 ^ 18) = 3 * 10 ^ 18" by (simp add: round_to_exact)
  then show ?thesis unfolding FloatToWei_finite by (simp add: Float_Int_def)
qed

lemma fixture_Itoa_big:
  "Itoa 3000000000000000000 = ''3000000000000000000''"
  "Itoa 1700000000 = ''1700000000''"
  by (simp_all add: Itoa_def dec.simps digit_chars)

lemma fixture_ParseInt: "ParseInt ''1'' = Some 1"
  by code_simp

lemma fixture_data:
  "map (\<lambda>f. fieldValues fixture_builder 3000000000000000000 1700000000 (Name f))
       (Structure fixture_builder)
     = [GString ''SBER'', GString ''3000000000000000000'', GInt 1700000000]"
  by (simp add: fixture_builder_def fieldValues_def fixture_Itoa_big)

lemma fixture_json:
  "json_Marshal fixture_lib [GString ''SBER'', GString ''3000000000000000000'', GInt 1700000000]
     = Some (CHR ''['' # CHR 0x22 # ''SBER'' @ CHR 0x22 # CHR '','' # CHR 0x22 # ''3000000000000000000''
              @ CHR 0x22 # '',1700000000]'')"
  by (simp add: fixture_lib_def fixture_Itoa_big)

lemma fixture_keccak:
  "hex_encode (Keccak256 fixture_lib
      ((CHR ''['' # CHR 0x22 # ''SBER'' @ CHR 0x22 # CHR '','' # CHR 0x22 # ''3000000000000000000''
              @ CHR 0x22 # '',1700000000]'') @ x))
     = ''5b2253424552222c2233303030303030303030303030303030303030222c3137''"
proof -
  have "Keccak256 fixture_lib
      ((CHR ''['' # CHR 0x22 # ''SBER'' @ CHR 0x22 # CHR '','' # CHR 0x22 # ''3000000000000000000''
              @ CHR 0x22 # '',1700000000]'') @ x)
        = CHR ''['' # CHR 0x22 # ''SBER'' @ CHR 0x22 # CHR '','' # CHR 0x22 # ''3000000000000000000''
              @ CHR 0x22 # '',17''"
    by (simp add: fixture_lib_def)
  moreover have "hex_encode (CHR ''['' # CHR 0x22 # ''SBER'' @ CHR 0x22 # CHR '','' # CHR 0x22 # ''3000000000000000000''
              @ CHR 0x22 # '',17'')
             = ''5b2253424552222c2233303030303030303030303030303030303030222c3137''"
    by code_simp
  ultimately show ?thesis by simp
qed

lemma fixture_built_run:
  "BuildMessage fixture_lib fixture_builder (Finite False 3 0) 1700000000 = Returned fixture_built"
proof -
  have c: "calculateHash fixture_lib
             [GString ''SBER'', GString ''3000000000000000000'', GInt 1700000000] 1700000000
           = Returned ''5b2253424552222c2233303030303030303030303030303030303030222c3137''"
  proof -
    have "calculateHash fixture_lib
             [GString ''SBER'', GString ''3000000000000000000'', GInt 1700000000] 1700000000
           = Returned (hex_encode (Keccak256 fixture_lib (spec_packed
               (CHR ''['' # CHR 0x22 # ''SBER'' @ CHR 0x22 # CHR '','' # CHR 0x22 # ''3000000000000000000''
                  @ CHR 0x22 # '',1700000000]'') 1700000000)))"
      by (rule calculateHash_spec[OF _ _ fixture_json]) simp_all
    then show ?thesis unfolding spec_packed_def fixture_keccak .
  qed
  show ?thesis
    unfolding BuildMessage_def fixture_wei Let_def
    by (simp add: fixture_data c fixture_built_def MsgTypeSignRequest_def)
       (simp add: fixture_builder_def fixture_ParseInt)
qed

section \<open>Properties of the coordinator\<close>

lemma StoreSignature_Inr:
  assumes "StoreSignature db h a s = Inr db'"
  shows "\<not> closed db \<and> \<not> write_fault db
         \<and> (map_of (kv db) (signaturePrefix @ h) = None
             \<or> (\<exists>m. map_of (kv db) (signaturePrefix @ h) = Some (VSigs m)))
         \<and> db' = db\<lparr>kv := put (signaturePrefix @ h)
                    (VSigs ((case map_of (kv db) (signaturePrefix @ h) of
                               Some (VSigs m) \<Rightarrow> m | _ \<Rightarrow> Map.empty)(a \<mapsto> s))) (kv db)\<rparr>"
  using assms
  by (auto simp: StoreSignature_def Let_def db_Get_def db_Put_Inr unmarshal_sigs_Some
           split: sum.splits option.splits if_splits)

lemma put_index_keys_Inr:
  "put_index_keys db ks = Inr db' \<Longrightarrow> \<forall>k\<in>set ks. k \<noteq> k' \<Longrightarrow>
     map_of (kv db') k' = map_of (kv db) k' \<and> closed db' = closed db \<and> write_fault db' = write_fault db"
proof (induction ks arbitrary: db)
  case Nil
  then show ?case by simp
next
  case (Cons k ks)
  then show ?case
    by (auto simp: db_Put_Inr map_of_put split: sum.splits)
qed

lemma StoreData_sig_keys:
  assumes "StoreData db hash dat ds meta ts dsid = Inr db'"
  shows "map_of (kv db') (signaturePrefix @ h) = map_of (kv db) (signaturePrefix @ h)"
proof -
  have ne: "\<forall>k\<in>set (indexKeys dsid ts hash (build_dataMap meta dat)). k \<noteq> signaturePrefix @ h"
    by (auto simp: indexKeys_def timestampIndexKey_def fieldIndexKey_def indexPrefix_def signaturePrefix_def)
  show ?thesis
    using assms put_index_keys_Inr[OF _ ne]
    by (auto simp: StoreData_def Let_def db_Put_Inr map_of_put dataStructPrefix_def dataPrefix_def
          signaturePrefix_def split: sum.splits if_splits)
qed


lemma handleSignResponse_cases:
  assumes "handleSignResponse l o' resp = Returned o''"
  shows "o'' = o'
       \<or> (\<exists>addr req db'.
            recovered l (resp_Hash resp) (resp_Signature resp) = Some addr
          \<and> isTrusted (Hex l addr) (trustedAddrs o')
          \<and> pending o' (resp_Hash resp) = Some req
          \<and> StoreSignature (op_db o') (resp_Hash resp) (Hex l addr) (resp_Signature resp) = Inr db'
          \<and> (o'' = o'\<lparr>op_db := db', pending := (pending o')(resp_Hash resp := None)\<rparr>
              \<or> o'' = o'\<lparr>op_db := db', pending := (pending o')(resp_Hash resp \<mapsto>
                          req\<lparr>signers := insert (Hex l addr) (signers req)\<rparr>)\<rparr>))"
  using assms
  by (auto simp: handleSignResponse_def recovered_def Let_def
           split: option.splits sum.splits if_splits)

lemma stored_sigs_StoreSignature:
  assumes "StoreSignature (op_db o') h a s = Inr db'"
  shows "stored_sigs (o'\<lparr>op_db := db', pending := p\<rparr>) h'
         = (if h' = h then Some ((case stored_sigs o' h of Some m \<Rightarrow> m | None \<Rightarrow> Map.empty)(a \<mapsto> s))
            else stored_sigs o' h')"
  using StoreSignature_Inr[OF assms]
  by (auto simp: stored_sigs_def map_of_put split: option.splits dbval.splits)

lemma sig_inv_handleSignResponse:
  assumes "sig_inv l (trustedAddrs o') o'" "handleSignResponse l o' resp = Returned o''"
  shows "sig_inv l (trustedAddrs o') o'' \<and> trustedAddrs o'' = trustedAddrs o'"
  using handleSignResponse_cases[OF assms(2)] assms(1)
  by (auto simp: sig_inv_def stored_sigs_StoreSignature split: if_splits option.splits)


lemma isTrusted_iff: "isTrusted s ts \<longleftrightarrow> (\<exists>t\<in>set ts. EqualFold s t)"
  by (induction ts) auto

lemma stored_sigs_op_db: "op_db o'' = op_db o' \<Longrightarrow> stored_sigs o'' = stored_sigs o'"
  by (auto simp: stored_sigs_def fun_eq_iff)

lemma stored_sigs_kv: "kv (op_db o'') = kv (op_db o') \<Longrightarrow> stored_sigs o'' = stored_sigs o'"
  by (auto simp: stored_sigs_def fun_eq_iff)

lemma step_other_stored_sigs:
  assumes "step l o' ev = Returned o''" "\<forall>now resp. ev \<noteq> Inbound now (WResponse resp)"
  shows "stored_sigs o'' = stored_sigs o' \<and> trustedAddrs o'' = trustedAddrs o'"
proof (cases ev)
  case (Inbound now msg)
  with assms show ?thesis
    by (cases msg) (auto simp: step_def HandleMessage_def handleSignRequest_def stored_sigs_def fun_eq_iff)
next
  case (ExpiryTick now)
  with assms show ?thesis
    by (auto simp: step_def cleanupExpiredRequests_def stored_sigs_def fun_eq_iff)
next
  case (Publish sr)
  with assms show ?thesis
    by (auto simp: step_def PublishSignRequest_def stored_sigs_def fun_eq_iff StoreData_sig_keys
             split: sum.splits)
next
  case Shutdown
  with assms show ?thesis
    by (auto simp: step_def db_Close_def stored_sigs_def fun_eq_iff)
next
  case (DiskFault b)
  with assms show ?thesis
    by (auto simp: step_def stored_sigs_def fun_eq_iff)
qed

lemma sig_inv_lastMessageTime [simp]:
  "sig_inv l t (o'\<lparr>lastMessageTime := x\<rparr>) = sig_inv l t o'"
  by (simp add: sig_inv_def stored_sigs_def)

lemma sig_inv_step:
  assumes "sig_inv l (trustedAddrs o') o'" "step l o' ev = Returned o''"
  shows "sig_inv l (trustedAddrs o') o'' \<and> trustedAddrs o'' = trustedAddrs o'"
proof (cases "\<exists>now resp. ev = Inbound now (WResponse resp)")
  case True
  then obtain now resp where ev: "ev = Inbound now (WResponse resp)" by blast
  from assms(2) have h: "handleSignResponse l (o'\<lparr>lastMessageTime := Some now\<rparr>) resp = Returned o''"
    by (simp add: ev step_def HandleMessage_def)
  from sig_inv_handleSignResponse[OF _ h] assms(1) show ?thesis by simp
next
  case False
  with step_other_stored_sigs[OF assms(2)] assms(1) show ?thesis
    by (simp add: sig_inv_def)
qed

lemma reachable_sig_inv:
  "reachable l trusted o' \<Longrightarrow> sig_inv l trusted o' \<and> trustedAddrs o' = trusted"
proof (induction rule: reachable.induct)
  case reachable_init
  show ?case by (simp add: sig_inv_def NewOperatorNode_def stored_sigs_def empty_db_def)
next
  case (reachable_step o' ev o'')
  with sig_inv_step[of l o' ev o''] show ?case by simp
qed

lemma untrusted_unchanged:
  assumes "recovered l (resp_Hash resp) (resp_Signature resp) = Some addr"
          "\<not> isTrusted (Hex l addr) (trustedAddrs o')"
  shows "handleSignResponse l o' resp = Returned o'"
  using assms
  by (auto simp: handleSignResponse_def recovered_def Let_def split: option.splits sum.splits)

lemma handleSignResponse_unfold:
  "handleSignResponse l o' resp =
     (if hex_DecodeString (resp_Hash resp) = None then Panicked ''encoding/hex: invalid hash''
      else case recovered l (resp_Hash resp) (resp_Signature resp) of
             None \<Rightarrow> Returned o'
           | Some signerAddress \<Rightarrow>
               if \<not> isTrusted (Hex l signerAddress) (trustedAddrs o') then Returned o'
               else case pending o' (resp_Hash resp) of
                      None \<Rightarrow> Returned o'
                    | Some req \<Rightarrow>
                        (case StoreSignature (op_db o') (resp_Hash resp) (Hex l signerAddress)
                                (resp_Signature resp) of
                           Inl e \<Rightarrow> Returned o'
                         | Inr db' \<Rightarrow>
                             if card (insert (Hex l signerAddress) (signers req)) \<ge> threshold o'
                                \<and> card (insert (Hex l signerAddress) (signers req)) = length (trustedAddrs o')
                             then Returned (o'\<lparr>op_db := db',
                                              pending := (pending o')(resp_Hash resp := None)\<rparr>)
                             else Returned (o'\<lparr>op_db := db',
                                              pending := (pending o')(resp_Hash resp \<mapsto>
                                                req\<lparr>signers := insert (Hex l signerAddress) (signers req)\<rparr>)\<rparr>)))"
  by (auto simp: handleSignResponse_def recovered_def Let_def split: option.splits sum.splits)

lemma fixture_hex_ab: "hex_DecodeString ''ab'' = Some [CHR 0xAB]"
  by code_simp

lemma fixture_hex_zz: "hex_DecodeString ''zz'' = None"
  by code_simp

lemma fixture_recovered_10:
  "recovered fixture_lib ''ab'' (fixture_sig CHR ''1'' CHR ''0'') = Some (replicate 20 (CHR 0x11))"
  by code_simp

lemma fixture_recovered_12:
  "recovered fixture_lib ''ab'' (fixture_sig CHR ''1'' CHR ''2'') = Some (replicate 20 (CHR 0x11))"
  by code_simp

lemma fixture_recovered_90:
  "recovered fixture_lib ''ab'' (fixture_sig CHR ''9'' CHR ''0'') = Some (replicate 20 (CHR 0x99))"
  by code_simp

lemma fixture_Hex_1: "Hex fixture_lib (replicate 20 (CHR 0x11)) = fixture_addr CHR ''1''"
  by code_simp

lemma fixture_Hex_9: "Hex fixture_lib (replicate 20 (CHR 0x99)) = fixture_addr CHR ''9''"
  by code_simp

lemma fixture_trusted:
  "isTrusted (fixture_addr CHR ''1'') [fixture_addr CHR ''1'']"
  "\<not> isTrusted (fixture_addr CHR ''9'') [fixture_addr CHR ''1'']"
  "isTrusted (fixture_addr CHR ''1'') [fixture_addr CHR ''1'', fixture_addr CHR ''2'']"
  "fixture_sig CHR ''1'' CHR ''0'' \<noteq> fixture_sig CHR ''1'' CHR ''2''"
  by code_simp+

lemma listen_reachable:
  "reachable l trusted o' \<Longrightarrow> listen l o' msgs = Returned o'' \<Longrightarrow> reachable l trusted o''"
proof (induction msgs arbitrary: o')
  case Nil
  then show ?case by simp
next
  case (Cons m msgs)
  obtain now msg where m: "m = (now, msg)" by (cases m)
  from Cons.prems(2) obtain o1 where o1: "HandleMessage l o' now msg = Returned o1"
     and rest: "listen l o1 msgs = Returned o''"
    by (auto simp: m split: result.splits)
  from o1 have "step l o' (Inbound now msg) = Returned o1" by (simp add: step_def)
  with Cons.prems(1) have "reachable l trusted o1" by (rule reachable_step)
  then show ?case using rest by (rule Cons.IH)
qed

lemma fixture_state1_run:
  "listen fixture_lib (NewOperatorNode [fixture_addr CHR ''1'', fixture_addr CHR ''2''])
     [(5, WRequest (fixture_request ''ab'')),
      (6, WResponse (fixture_response ''ab'' CHR ''1'' CHR ''0''))] = Returned fixture_state1"
  by (simp add: HandleMessage_def handleSignRequest_def handleSignResponse_unfold
        NewOperatorNode_def fixture_request_def fixture_response_def fixture_hex_ab
        fixture_recovered_10 fixture_Hex_1 fixture_trusted StoreSignature_def db_Get_def
        db_Put_def empty_db_def threshold_def fixture_state1_def signaturePrefix_def
        del: hex_DecodeString.simps isTrusted.simps)

lemma handleSignResponse_total:
  "hex_DecodeString (resp_Hash resp) \<noteq> None \<Longrightarrow> \<exists>o''. handleSignResponse l o' resp = Returned o''"
  by (auto simp: handleSignResponse_unfold split: option.splits sum.splits)

lemma fixture_state0_response:
  "handleSignResponse fixture_lib fixture_state0 (fixture_response ''ab'' CHR ''1'' CHR ''0'')
     = Returned (fixture_state1\<lparr>lastMessageTime := Some 5\<rparr>)"
  by (simp add: handleSignResponse_unfold fixture_state0_def
        fixture_request_def fixture_response_def fixture_hex_ab
        fixture_recovered_10 fixture_Hex_1 fixture_trusted StoreSignature_def db_Get_def
        db_Put_def empty_db_def threshold_def fixture_state1_def signaturePrefix_def
        del: hex_DecodeString.simps isTrusted.simps)

lemma Node_handleSignRequest_panics:
  "hex_DecodeString (req_Hash req) = None \<Longrightarrow>
     Node_handleSignRequest l n req = Panicked ''encoding/hex: invalid hash''"
  by (simp add: Node_handleSignRequest_def)

lemma handleSignResponse_panics:
  "hex_DecodeString (resp_Hash resp) = None \<Longrightarrow>
     handleSignResponse l o' resp = Panicked ''encoding/hex: invalid hash''"
  by (simp add: handleSignResponse_def)

lemma StoreSignature_again:
  assumes "StoreSignature db h a s = Inr db1"
  shows "\<exists>m. map_of (kv db1) (signaturePrefix @ h) = Some (VSigs m) \<and> m a = Some s
           \<and> StoreSignature db1 h a s' = Inr (db1\<lparr>kv := put (signaturePrefix @ h) (VSigs (m(a \<mapsto> s'))) (kv db1)\<rparr>)"
  using StoreSignature_Inr[OF assms]
  by (auto simp: StoreSignature_def Let_def db_Get_def db_Put_def map_of_put)

lemma fixture_state2_run:
  "listen fixture_lib (NewOperatorNode [fixture_addr CHR ''1''])
     [(5, WRequest (fixture_request ''ab'')),
      (6, WResponse (fixture_response ''ab'' CHR ''1'' CHR ''0'')),
      (7, WResponse (fixture_response ''ab'' CHR ''1'' CHR ''2''))] = Returned fixture_state2"
  by (simp add: HandleMessage_def handleSignRequest_def handleSignResponse_unfold
        NewOperatorNode_def fixture_request_def fixture_response_def fixture_hex_ab
        fixture_recovered_10 fixture_recovered_12 fixture_Hex_1 fixture_trusted StoreSignature_def db_Get_def
        db_Put_def empty_db_def threshold_def fixture_state2_def signaturePrefix_def
        del: hex_DecodeString.simps isTrusted.simps)

text \<open>
  Claim C2. In every state the coordinator reaches from a fresh database, each signature
  stored under \<open>sig:hash\<close> recovers (over the text hash of the decoded \<open>hash\<close>) to the
  address it is stored under, and that address is in the trusted set under \<open>EqualFold\<close>;
  two signatures stored for one hash recover to different addresses; a response whose
  signature recovers to an address outside the trusted set leaves the whole state as
  it is; and no step other than the handling of a sign response changes a stored
  signature map.
\<close>

theorem stored_signatures_from_trusted_signers:
  assumes "reachable l trusted o'"
  shows "(\<forall>h m a s. stored_sigs o' h = Some m \<and> m a = Some s \<longrightarrow>
            (\<exists>addr. recovered l h s = Some addr \<and> Hex l addr = a
                   \<and> (\<exists>t\<in>set trusted. EqualFold (Hex l addr) t)))
       \<and> (\<forall>h m a a' s s'. stored_sigs o' h = Some m \<and> m a = Some s \<and> m a' = Some s' \<and> a \<noteq> a'
            \<longrightarrow> recovered l h s \<noteq> recovered l h s')
       \<and> (\<forall>resp addr. recovered l (resp_Hash resp) (resp_Signature resp) = Some addr
              \<and> \<not> (\<exists>t\<in>set trusted. EqualFold (Hex l addr) t)
            \<longrightarrow> handleSignResponse l o' resp = Returned o')
       \<and> (\<forall>ev o''. step l o' ev = Returned o'' \<and> (\<forall>now resp. ev \<noteq> Inbound now (WResponse resp))
            \<longrightarrow> stored_sigs o'' = stored_sigs o')"
proof -
  from reachable_sig_inv[OF assms] have inv: "sig_inv l trusted o'" and ta: "trustedAddrs o' = trusted"
    by simp_all
  have a: "\<forall>h m a s. stored_sigs o' h = Some m \<and> m a = Some s \<longrightarrow>
            (\<exists>addr. recovered l h s = Some addr \<and> Hex l addr = a
                   \<and> (\<exists>t\<in>set trusted. EqualFold (Hex l addr) t))"
    using inv unfolding sig_inv_def isTrusted_iff by blast
  have b: "\<forall>h m a a' s s'. stored_sigs o' h = Some m \<and> m a = Some s \<and> m a' = Some s' \<and> a \<noteq> a'
            \<longrightarrow> recovered l h s \<noteq> recovered l h s'"
  proof (intro allI impI)
    fix h m a a' s s'
    assume h: "stored_sigs o' h = Some m \<and> m a = Some s \<and> m a' = Some s' \<and> a \<noteq> a'"
    with a obtain addr addr' where "recovered l h s = Some addr" "Hex l addr = a"
       "recovered l h s' = Some addr'" "Hex l addr' = a'" by blast
    with h show "recovered l h s \<noteq> recovered l h s'" by auto
  qed
  have c: "\<forall>resp addr. recovered l (resp_Hash resp) (resp_Signature resp) = Some addr
              \<and> \<not> (\<exists>t\<in>set trusted. EqualFold (Hex l addr) t)
            \<longrightarrow> handleSignResponse l o' resp = Returned o'"
    using untrusted_unchanged[of l _ _ o'] ta unfolding isTrusted_iff by blast
  have d: "\<forall>ev o''. step l o' ev = Returned o'' \<and> (\<forall>now resp. ev \<noteq> Inbound now (WResponse resp))
            \<longrightarrow> stored_sigs o'' = stored_sigs o'"
    using step_other_stored_sigs by blast
  from a b c d show ?thesis by blast
qed

theorem stored_signatures_from_trusted_signers_witness:
  "reachable fixture_lib [fixture_addr CHR ''1'', fixture_addr CHR ''2''] fixture_state1
   \<and> stored_sigs fixture_state1 ''ab''
        = Some [fixture_addr CHR ''1'' \<mapsto> fixture_sig CHR ''1'' CHR ''0'']
   \<and> (\<exists>addr. recovered fixture_lib ''ab'' (fixture_sig CHR ''1'' CHR ''0'') = Some addr
            \<and> Hex fixture_lib addr = fixture_addr CHR ''1''
            \<and> (\<exists>t\<in>set [fixture_addr CHR ''1'', fixture_addr CHR ''2''].
                   EqualFold (Hex fixture_lib addr) t))
   \<and> handleSignResponse fixture_lib fixture_state1 (fixture_response ''ab'' CHR ''9'' CHR ''0'')
        = Returned fixture_state1"
proof -
  let ?T = "[fixture_addr CHR ''1'', fixture_addr CHR ''2'']"
  have r: "reachable fixture_lib ?T fixture_state1"
    by (rule listen_reachable[OF reachable_init fixture_state1_run])
  note T = stored_signatures_from_trusted_signers[OF r]
  have s: "stored_sigs fixture_state1 ''ab''
             = Some [fixture_addr CHR ''1'' \<mapsto> fixture_sig CHR ''1'' CHR ''0'']"
    by (simp add: stored_sigs_def fixture_state1_def signaturePrefix_def)
  have m: "[fixture_addr CHR ''1'' \<mapsto> fixture_sig CHR ''1'' CHR ''0''] (fixture_addr CHR ''1'')
             = Some (fixture_sig CHR ''1'' CHR ''0'')"
    by simp
  from T s m have a: "\<exists>addr. recovered fixture_lib ''ab'' (fixture_sig CHR ''1'' CHR ''0'') = Some addr
            \<and> Hex fixture_lib addr = fixture_addr CHR ''1''
            \<and> (\<exists>t\<in>set ?T. EqualFold (Hex fixture_lib addr) t)"
    by blast
  have u: "\<not> (\<exists>t\<in>set ?T. EqualFold (Hex fixture_lib (replicate 20 (CHR 0x99))) t)"
    by code_simp
  have "recovered fixture_lib (resp_Hash (fixture_response ''ab'' CHR ''9'' CHR ''0''))
          (resp_Signature (fixture_response ''ab'' CHR ''9'' CHR ''0'')) = Some (replicate 20 (CHR 0x99))"
    by (simp add: fixture_response_def fixture_recovered_90)
  with T u have c: "handleSignResponse fixture_lib fixture_state1 (fixture_response ''ab'' CHR ''9'' CHR ''0'')
        = Returned fixture_state1"
    by blast
  from r s a c show ?thesis by blast
qed

text \<open>
  Claim C4. For a response whose hash is valid hex, \<open>handleSignResponse\<close> returns, and:
  if the hash has no pending entry the state (pending table and store) is unchanged;
  if \<open>StoreSignature\<close> fails the state is unchanged, so the signer is not counted and
  the entry stays pending; and whenever the pending table changes at all (a signer
  counted, or the entry retired), \<open>StoreSignature\<close> has returned without error and the
  signature is in the stored map of the new state.
\<close>

theorem signer_counted_only_after_store:
  assumes "hex_DecodeString (resp_Hash resp) \<noteq> None"
  shows "\<exists>o''. handleSignResponse l o' resp = Returned o''
       \<and> (pending o' (resp_Hash resp) = None \<longrightarrow> o'' = o')
       \<and> (\<forall>addr e. recovered l (resp_Hash resp) (resp_Signature resp) = Some addr
              \<and> StoreSignature (op_db o') (resp_Hash resp) (Hex l addr) (resp_Signature resp) = Inl e
            \<longrightarrow> o'' = o')
       \<and> (pending o'' \<noteq> pending o' \<longrightarrow>
            (\<exists>addr m. recovered l (resp_Hash resp) (resp_Signature resp) = Some addr
               \<and> StoreSignature (op_db o') (resp_Hash resp) (Hex l addr) (resp_Signature resp)
                    = Inr (op_db o'')
               \<and> stored_sigs o'' (resp_Hash resp) = Some m
               \<and> m (Hex l addr) = Some (resp_Signature resp)))"
proof -
  from handleSignResponse_total[OF assms] obtain o'' where
    o'': "handleSignResponse l o' resp = Returned o''" by blast
  have a: "pending o' (resp_Hash resp) = None \<longrightarrow> o'' = o'"
    using o'' by (auto simp: handleSignResponse_unfold split: option.splits sum.splits if_splits)
  have b: "\<forall>addr e. recovered l (resp_Hash resp) (resp_Signature resp) = Some addr
              \<and> StoreSignature (op_db o') (resp_Hash resp) (Hex l addr) (resp_Signature resp) = Inl e
            \<longrightarrow> o'' = o'"
    using o'' by (auto simp: handleSignResponse_unfold split: option.splits sum.splits if_splits)
  have c: "pending o'' \<noteq> pending o' \<longrightarrow>
            (\<exists>addr m. recovered l (resp_Hash resp) (resp_Signature resp) = Some addr
               \<and> StoreSignature (op_db o') (resp_Hash resp) (Hex l addr) (resp_Signature resp)
                    = Inr (op_db o'')
               \<and> stored_sigs o'' (resp_Hash resp) = Some m
               \<and> m (Hex l addr) = Some (resp_Signature resp))"
  proof
    assume ne: "pending o'' \<noteq> pending o'"
    with handleSignResponse_cases[OF o''] obtain addr req db' where
      rec: "recovered l (resp_Hash resp) (resp_Signature resp) = Some addr"
      and st: "StoreSignature (op_db o') (resp_Hash resp) (Hex l addr) (resp_Signature resp) = Inr db'"
      and o2: "o'' = o'\<lparr>op_db := db', pending := (pending o')(resp_Hash resp := None)\<rparr>
              \<or> o'' = o'\<lparr>op_db := db', pending := (pending o')(resp_Hash resp \<mapsto>
                          req\<lparr>signers := insert (Hex l addr) (signers req)\<rparr>)\<rparr>"
      by auto
    from o2 have db: "op_db o'' = db'" by auto
    from o2 obtain p where "o'' = o'\<lparr>op_db := db', pending := p\<rparr>" by blast
    with stored_sigs_StoreSignature[OF st, of p "resp_Hash resp"]
    have "\<exists>m. stored_sigs o'' (resp_Hash resp) = Some m \<and> m (Hex l addr) = Some (resp_Signature resp)"
      by simp
    with rec st db show "\<exists>addr m. recovered l (resp_Hash resp) (resp_Signature resp) = Some addr
               \<and> StoreSignature (op_db o') (resp_Hash resp) (Hex l addr) (resp_Signature resp)
                    = Inr (op_db o'')
               \<and> stored_sigs o'' (resp_Hash resp) = Some m
               \<and> m (Hex l addr) = Some (resp_Signature resp)"
      by blast
  qed
  show ?thesis
    apply (rule exI[of _ o''])
    apply (intro conjI)
       apply (rule o'')
      apply (rule a)
     apply (rule b)
    apply (rule c)
    done
qed

theorem signer_counted_only_after_store_witness:
  "hex_DecodeString (resp_Hash (fixture_response ''ab'' CHR ''1'' CHR ''0'')) \<noteq> None
   \<and> pending (fixture_state1\<lparr>lastMessageTime := Some 5\<rparr>) \<noteq> pending fixture_state0
   \<and> (\<exists>addr m. recovered fixture_lib ''ab'' (fixture_sig CHR ''1'' CHR ''0'') = Some addr
         \<and> StoreSignature (op_db fixture_state0) ''ab'' (Hex fixture_lib addr)
              (fixture_sig CHR ''1'' CHR ''0'') = Inr (op_db fixture_state1)
         \<and> stored_sigs fixture_state1 ''ab'' = Some m
         \<and> m (Hex fixture_lib addr) = Some (fixture_sig CHR ''1'' CHR ''0''))"
proof -
  let ?r = "fixture_response ''ab'' CHR ''1'' CHR ''0''"
  have h: "hex_DecodeString (resp_Hash ?r) \<noteq> None"
    by (simp add: fixture_response_def fixture_hex_ab del: hex_DecodeString.simps)
  have ne: "pending (fixture_state1\<lparr>lastMessageTime := Some 5\<rparr>) \<noteq> pending fixture_state0"
  proof
    assume "pending (fixture_state1\<lparr>lastMessageTime := Some 5\<rparr>) = pending fixture_state0"
    then have "pending (fixture_state1\<lparr>lastMessageTime := Some 5\<rparr>) ''ab'' = pending fixture_state0 ''ab''"
      by simp
    then show False by (simp add: fixture_state1_def fixture_state0_def)
  qed
  from signer_counted_only_after_store[OF h, of fixture_lib fixture_state0]
  obtain o'' where r: "handleSignResponse fixture_lib fixture_state0 ?r = Returned o''"
    and c: "pending o'' \<noteq> pending fixture_state0 \<longrightarrow>
            (\<exists>addr m. recovered fixture_lib (resp_Hash ?r) (resp_Signature ?r) = Some addr
               \<and> StoreSignature (op_db fixture_state0) (resp_Hash ?r) (Hex fixture_lib addr) (resp_Signature ?r)
                    = Inr (op_db o'')
               \<and> stored_sigs o'' (resp_Hash ?r) = Some m
               \<and> m (Hex fixture_lib addr) = Some (resp_Signature ?r))"
    by blast
  from r have o'': "o'' = fixture_state1\<lparr>lastMessageTime := Some 5\<rparr>"
    by (simp add: fixture_state0_response)
  have s: "stored_sigs (fixture_state1\<lparr>lastMessageTime := Some 5\<rparr>) = stored_sigs fixture_state1"
    by (rule stored_sigs_op_db) simp
  from c ne have "\<exists>addr m. recovered fixture_lib ''ab'' (fixture_sig CHR ''1'' CHR ''0'') = Some addr
         \<and> StoreSignature (op_db fixture_state0) ''ab'' (Hex fixture_lib addr)
              (fixture_sig CHR ''1'' CHR ''0'') = Inr (op_db fixture_state1)
         \<and> stored_sigs fixture_state1 ''ab'' = Some m
         \<and> m (Hex fixture_lib addr) = Some (fixture_sig CHR ''1'' CHR ''0'')"
    unfolding o'' s by (simp add: fixture_response_def)
  with h ne show ?thesis by blast
qed

text \<open>
  Claim C3, evaluated on the code. A sign request whose hash is \<open>zz\<close> makes the signer's
  \<open>handleSignRequest\<close> panic, and a sign response with that hash makes the coordinator's
  \<open>handleSignResponse\<close> panic: the listen loop ends there and the valid message that
  follows is never handled.
\<close>

theorem malformed_hash_panics:
  "(\<forall>l n. Node_listen l n [WRequest (fixture_request ''zz''), WRequest (fixture_request ''ab'')]
            = Panicked ''encoding/hex: invalid hash'')
   \<and> (\<forall>l o' t t'. listen l o' [(t, WResponse (fixture_response ''zz'' CHR ''1'' CHR ''0'')),
                               (t', WRequest (fixture_request ''ab''))]
            = Panicked ''encoding/hex: invalid hash'')"
  by (simp add: Node_HandleMessage_def HandleMessage_def Node_handleSignRequest_panics
        handleSignResponse_panics fixture_request_def fixture_response_def fixture_hex_zz
        del: hex_DecodeString.simps)

text \<open>
  Claim C6 as stated fails: with a single trusted address the first response completes
  the trusted set and retires the pending entry, so a second response signed by the
  same address is dropped and the stored signature stays that of the first response,
  not of the last one processed.
\<close>

theorem duplicate_response_keeps_first_signature_counterexample:
  "listen fixture_lib (NewOperatorNode [fixture_addr CHR ''1''])
     [(5, WRequest (fixture_request ''ab'')),
      (6, WResponse (fixture_response ''ab'' CHR ''1'' CHR ''0'')),
      (7, WResponse (fixture_response ''ab'' CHR ''1'' CHR ''2''))] = Returned fixture_state2
   \<and> recovered fixture_lib ''ab'' (fixture_sig CHR ''1'' CHR ''0'') = Some (replicate 20 (CHR 0x11))
   \<and> recovered fixture_lib ''ab'' (fixture_sig CHR ''1'' CHR ''2'') = Some (replicate 20 (CHR 0x11))
   \<and> isTrusted (Hex fixture_lib (replicate 20 (CHR 0x11))) [fixture_addr CHR ''1'']
   \<and> stored_sigs fixture_state2 ''ab''
        = Some [fixture_addr CHR ''1'' \<mapsto> fixture_sig CHR ''1'' CHR ''0'']
   \<and> fixture_sig CHR ''1'' CHR ''0'' \<noteq> fixture_sig CHR ''1'' CHR ''2''"
proof -
  have s: "stored_sigs fixture_state2 ''ab''
             = Some [fixture_addr CHR ''1'' \<mapsto> fixture_sig CHR ''1'' CHR ''0'']"
    by (simp add: stored_sigs_def fixture_state2_def signaturePrefix_def)
  have t: "isTrusted (Hex fixture_lib (replicate 20 (CHR 0x11))) [fixture_addr CHR ''1'']"
    by (simp add: fixture_Hex_1 fixture_trusted del: isTrusted.simps)
  from fixture_state2_run fixture_recovered_10 fixture_recovered_12 t s fixture_trusted(4)
  show ?thesis by blast
qed

text \<open>
  Claim C6, amended. Two responses for one pending hash whose signatures recover to the
  same trusted address, the store accepting the first write: both are handled, the
  second leaves the pending table as the first left it, an entry that is still pending
  counts the address once, and the stored map holds one entry for the address: the
  signature of the second response if the entry was still pending after the first, and
  the signature of the first response if the first response retired the entry.
\<close>

theorem duplicate_response_while_pending:
  assumes h1: "resp_Hash r1 = h" and h2: "resp_Hash r2 = h"
    and rec1: "recovered l h (resp_Signature r1) = Some addr"
    and rec2: "recovered l h (resp_Signature r2) = Some addr"
    and tr: "isTrusted (Hex l addr) (trustedAddrs o')"
    and pe: "pending o' h = Some q0"
    and st: "StoreSignature (op_db o') h (Hex l addr) (resp_Signature r1) = Inr db1"
  shows "\<exists>o1 o2. handleSignResponse l o' r1 = Returned o1
           \<and> handleSignResponse l o1 r2 = Returned o2
           \<and> pending o2 = pending o1
           \<and> (\<forall>q1. pending o1 h = Some q1 \<longrightarrow> signers q1 = insert (Hex l addr) (signers q0))
           \<and> (\<exists>m. stored_sigs o2 h = Some m
                  \<and> m (Hex l addr) = Some (if pending o1 h = None then resp_Signature r1
                                            else resp_Signature r2))"
proof -
  let ?A = "Hex l addr"
  let ?q1 = "q0\<lparr>signers := insert ?A (signers q0)\<rparr>"
  let ?retire = "card (insert ?A (signers q0)) \<ge> threshold o'
                 \<and> card (insert ?A (signers q0)) = length (trustedAddrs o')"
  from rec1 have hx: "hex_DecodeString h \<noteq> None"
    by (auto simp: recovered_def split: option.splits)
  from StoreSignature_again[OF st, of "resp_Signature r2"] obtain m where
    m: "map_of (kv db1) (signaturePrefix @ h) = Some (VSigs m)" "m ?A = Some (resp_Signature r1)"
    and st2: "StoreSignature db1 h ?A (resp_Signature r2)
               = Inr (db1\<lparr>kv := put (signaturePrefix @ h) (VSigs (m(?A \<mapsto> resp_Signature r2))) (kv db1)\<rparr>)"
    by blast
  show ?thesis
  proof (cases ?retire)
    case True
    let ?o1 = "o'\<lparr>op_db := db1, pending := (pending o')(h := None)\<rparr>"
    have s1: "handleSignResponse l o' r1 = Returned ?o1"
      using True hx rec1 tr pe st by (simp add: handleSignResponse_unfold h1)
    have s2: "handleSignResponse l ?o1 r2 = Returned ?o1"
      using hx rec2 tr by (simp add: handleSignResponse_unfold h2)
    have "stored_sigs ?o1 h = Some m" using m by (simp add: stored_sigs_def)
    with s1 s2 m show ?thesis by (intro exI[of _ ?o1] conjI) auto
  next
    case False
    let ?o1 = "o'\<lparr>op_db := db1, pending := (pending o')(h \<mapsto> ?q1)\<rparr>"
    let ?db2 = "db1\<lparr>kv := put (signaturePrefix @ h) (VSigs (m(?A \<mapsto> resp_Signature r2))) (kv db1)\<rparr>"
    let ?o2 = "?o1\<lparr>op_db := ?db2\<rparr>"
    have s1: "handleSignResponse l o' r1 = Returned ?o1"
      using False hx rec1 tr pe st by (auto simp add: handleSignResponse_unfold h1)
    have ins: "insert ?A (insert ?A (signers q0)) = insert ?A (signers q0)" by simp
    have s2: "handleSignResponse l ?o1 r2 = Returned ?o2"
      using False hx rec2 tr st2 by (auto simp add: handleSignResponse_unfold h2 threshold_def)
    have "stored_sigs ?o2 h = Some (m(?A \<mapsto> resp_Signature r2))"
      by (simp add: stored_sigs_def map_of_put)
    with s1 s2 show ?thesis by (intro exI[of _ ?o1] exI[of _ ?o2] conjI) auto
  qed
qed

theorem duplicate_response_while_pending_witness:
  "pending fixture_state0 ''ab''
     = Some \<lparr>pr_timestamp = 5, signers = {}, pr_data = fixture_request ''ab''\<rparr>
   \<and> StoreSignature (op_db fixture_state0) ''ab'' (fixture_addr CHR ''1'')
        (fixture_sig CHR ''1'' CHR ''0'') = Inr (op_db fixture_state1)
   \<and> (\<exists>o1 o2. handleSignResponse fixture_lib fixture_state0
                  (fixture_response ''ab'' CHR ''1'' CHR ''0'') = Returned o1
         \<and> handleSignResponse fixture_lib o1 (fixture_response ''ab'' CHR ''1'' CHR ''2'') = Returned o2
         \<and> pending o2 = pending o1
         \<and> (\<exists>q1. pending o1 ''ab'' = Some q1 \<and> signers q1 = {fixture_addr CHR ''1''})
         \<and> (\<exists>m. stored_sigs o2 ''ab'' = Some m
                \<and> m (fixture_addr CHR ''1'') = Some (fixture_sig CHR ''1'' CHR ''2'')))"
proof -
  let ?r1 = "fixture_response ''ab'' CHR ''1'' CHR ''0''"
  let ?r2 = "fixture_response ''ab'' CHR ''1'' CHR ''2''"
  let ?q0 = "\<lparr>pr_timestamp = 5, signers = {}, pr_data = fixture_request ''ab''\<rparr>"
  have pe: "pending fixture_state0 ''ab'' = Some ?q0"
    by (simp add: fixture_state0_def)
  have st: "StoreSignature (op_db fixture_state0) ''ab'' (Hex fixture_lib (replicate 20 (CHR 0x11)))
              (resp_Signature ?r1) = Inr (op_db fixture_state1)"
    by (simp add: fixture_Hex_1 fixture_response_def StoreSignature_def db_Get_def db_Put_def
          fixture_state0_def fixture_state1_def empty_db_def signaturePrefix_def)
  have tr: "isTrusted (Hex fixture_lib (replicate 20 (CHR 0x11))) (trustedAddrs fixture_state0)"
    by (simp add: fixture_Hex_1 fixture_state0_def fixture_trusted del: isTrusted.simps)
  have rec1: "recovered fixture_lib ''ab'' (resp_Signature ?r1) = Some (replicate 20 (CHR 0x11))"
    by (simp add: fixture_response_def fixture_recovered_10)
  have rec2: "recovered fixture_lib ''ab'' (resp_Signature ?r2) = Some (replicate 20 (CHR 0x11))"
    by (simp add: fixture_response_def fixture_recovered_12)
  have h1: "resp_Hash ?r1 = ''ab''" and h2: "resp_Hash ?r2 = ''ab''"
    by (simp_all add: fixture_response_def)
  from duplicate_response_while_pending[OF h1 h2 rec1 rec2 tr pe st]
  obtain o1 o2 m where
    a: "handleSignResponse fixture_lib fixture_state0 ?r1 = Returned o1"
    and b: "handleSignResponse fixture_lib o1 ?r2 = Returned o2"
    and c: "pending o2 = pending o1"
    and d: "\<forall>q1. pending o1 ''ab'' = Some q1 \<longrightarrow>
               signers q1 = insert (Hex fixture_lib (replicate 20 (CHR 0x11))) (signers ?q0)"
    and e: "stored_sigs o2 ''ab'' = Some m"
    and f: "m (Hex fixture_lib (replicate 20 (CHR 0x11)))
              = Some (if pending o1 ''ab'' = None then resp_Signature ?r1 else resp_Signature ?r2)"
    by blast
  from a have o1: "o1 = fixture_state1\<lparr>lastMessageTime := Some 5\<rparr>"
    by (simp add: fixture_state0_response)
  have p1: "pending o1 ''ab'' = Some \<lparr>pr_timestamp = 5, signers = {fixture_addr CHR ''1''},
                                      pr_data = fixture_request ''ab''\<rparr>"
    by (simp add: o1 fixture_state1_def)
  from f p1 have f': "m (fixture_addr CHR ''1'') = Some (fixture_sig CHR ''1'' CHR ''2'')"
    by (simp add: fixture_Hex_1 fixture_response_def)
  from p1 have g: "\<exists>q1. pending o1 ''ab'' = Some q1 \<and> signers q1 = {fixture_addr CHR ''1''}"
    by simp
  from st have st': "StoreSignature (op_db fixture_state0) ''ab'' (fixture_addr CHR ''1'')
        (fixture_sig CHR ''1'' CHR ''0'') = Inr (op_db fixture_state1)"
    by (simp add: fixture_Hex_1 fixture_response_def)
  from pe st' a b c g e f' show ?thesis by blast
qed

section \<open>Claims about the store queries\<close>

text \<open>
  Claim C7 as stated fails for \<open>GetAllMessages\<close> itself, which does not normalise its
  arguments: on a store with two records, \<open>limit = 0\<close> returns one record (the loop
  appends before it compares \<open>count\<close> with \<open>limit\<close>) and \<open>limit = 10\<close> returns both.
\<close>

theorem GetAllMessages_limit_zero_counterexample:
  "GetAllMessages fixture_db2 1 1 0 = [fixture_msg ''h2'' 1700000002]
   \<and> GetAllMessages fixture_db2 1 1 10
       = [fixture_msg ''h2'' 1700000002, fixture_msg ''h1'' 1700000001]
   \<and> GetAllMessages fixture_db2 1 1 0 \<noteq> GetAllMessages fixture_db2 1 1 10"
  by (simp add: fixture_all2)

text \<open>
  Claim C7, amended. \<open>GetAllMessages\<close> reads the index range downwards, skips
  \<open>(page - 1) * limit\<close> joinable entries (none when that product, in 64-bit
  arithmetic, is not positive) and collects up to \<open>limit\<close> records that decode (one
  record when \<open>limit\<close> is below 1). The normalisation is done by the caller
  \<open>handleList\<close>: a request with \<open>page\<close> below 1 returns what page 1 returns, and a
  request with \<open>limit\<close> outside 1..100 returns what \<open>limit = 10\<close> returns.
\<close>

theorem GetAllMessages_page:
  "GetAllMessages db dsid page limit =
     spec_page db dsid (nat (wrap64 (wrap64 (page - 1) * limit))) (nat (max 1 limit))
   \<and> handleList db dsid page limit =
       GetAllMessages db dsid (if page < 1 then 1 else page)
         (if limit < 1 \<or> 100 < limit then 10 else limit)"
proof -
  have a: "\<And>page limit. GetAllMessages db dsid page limit =
     spec_page db dsid (nat (wrap64 (wrap64 (page - 1) * limit))) (nat (max 1 limit))"
    by (simp add: GetAllMessages_def spec_page_def Let_def GetAllMessages_loop_eq)
  have m1: "wrap64 (- 1) = - 1" "wrap64 0 = 0"
    by (simp_all add: wrap64_def)
  have w: "\<And>l. 1 \<le> l \<Longrightarrow> l \<le> 100 \<Longrightarrow> nat (wrap64 (- l)) = 0"
    by (subst wrap64_id) simp_all
  have b: "handleList db dsid page limit =
       GetAllMessages db dsid (if page < 1 then 1 else page)
         (if limit < 1 \<or> 100 < limit then 10 else limit)"
  proof (cases "page < 1")
    case True
    then have "(if page < 0 then 0 else page) = 0" by simp
    with True show ?thesis
      unfolding handleList_def Let_def a
      by (auto simp: m1 w)
  next
    case False
    then show ?thesis by (auto simp: handleList_def Let_def)
  qed
  from a b show ?thesis by blast
qed

text \<open>
  Claim C8, evaluated on the code. After \<open>StoreData\<close> of one record with the fields
  \<open>ticker\<close> and \<open>price\<close>, the highest key of the range \<open>index:1:\<close> is the field-index
  key \<open>index:1:ticker:SBER:h1\<close>, whose fourth part \<open>SBER\<close> is no hash:
  \<open>GetLatestMessage\<close> returns the not-found error and no record, although the key
  \<open>index:1:1700000001:h1\<close> joins to a decodable record, which \<open>GetAllMessages\<close> (whose
  loop skips the keys that do not join) returns.
\<close>

theorem GetLatestMessage_misses_stored_record:
  "StoreData empty_db ''h1'' [GString ''SBER'', GString ''100''] [''string'', ''uint256'']
     [''ticker'', ''price''] 1700000001 1 = Inr fixture_db1
   \<and> GetLatestMessage fixture_db1 1 = (zero_Message, False, Some (DBError ErrNotFound))
   \<and> GetAllMessages fixture_db1 1 1 10 = [fixture_msg1]"
  by (simp add: fixture_db1_stored fixture_latest1 fixture_all1)

text \<open>
  Claim C9. A record whose field map has \<open>k\<close> entries (one per distinct field name
  among the first \<open>len(data)\<close> names) makes \<open>StoreData\<close> put \<open>k + 1\<close> index keys, all
  under the prefix \<open>index:<dsId>:\<close>: the timestamp key and one key per field.
  \<open>MessageCount\<close> of \<open>GetDataStructureStats\<close> is the number of keys under that prefix,
  so after a successful \<open>StoreData\<close> it is the number of distinct keys among those that
  were there and those just put, not the number of records.
\<close>

theorem MessageCount_counts_index_keys:
  "length (indexKeys dsid ts hash (build_dataMap meta dat)) = length (build_dataMap meta dat) + 1
   \<and> distinct (map fst (build_dataMap meta dat))
   \<and> set (map fst (build_dataMap meta dat)) = set (take (length dat) meta)
   \<and> (\<forall>k\<in>set (indexKeys dsid ts hash (build_dataMap meta dat)).
         HasPrefix k (indexPrefix @ Itoa dsid @ '':''))
   \<and> MessageCount (GetDataStructureStats db dsid thr)
       = int (length (iter_keys db (indexPrefix @ Itoa dsid @ '':'')))
   \<and> (db_wf db \<and> StoreData db hash dat ds meta ts dsid = Inr db' \<longrightarrow>
        MessageCount (GetDataStructureStats db' dsid thr)
          = int (card (set (iter_keys db (indexPrefix @ Itoa dsid @ '':''))
                       \<union> set (indexKeys dsid ts hash (build_dataMap meta dat)))))"
proof -
  let ?P = "indexPrefix @ Itoa dsid @ '':''"
  let ?ks = "indexKeys dsid ts hash (build_dataMap meta dat)"
  have a: "length ?ks = length (build_dataMap meta dat) + 1"
    by (simp add: indexKeys_def)
  have e: "db_wf db \<and> StoreData db hash dat ds meta ts dsid = Inr db' \<longrightarrow>
        MessageCount (GetDataStructureStats db' dsid thr)
          = int (card (set (iter_keys db ?P) \<union> set ?ks))"
  proof
    assume h: "db_wf db \<and> StoreData db hash dat ds meta ts dsid = Inr db'"
    then have wf: "db_wf db" and sd: "StoreData db hash dat ds meta ts dsid = Inr db'"
      by simp_all
    from iter_keys_StoreData[OF wf sd]
    have d: "distinct (iter_keys db' ?P)"
      and s: "set (iter_keys db' ?P) = set (iter_keys db ?P) \<union> set ?ks" by simp_all
    from d have "length (iter_keys db' ?P) = card (set (iter_keys db' ?P))"
      by (simp add: distinct_card)
    then show "MessageCount (GetDataStructureStats db' dsid thr)
          = int (card (set (iter_keys db ?P) \<union> set ?ks))"
      unfolding s by (simp add: MessageCount_iter_keys)
  qed
  from a build_dataMap_keys[of meta dat] indexKeys_prefix[of dsid ts hash "build_dataMap meta dat"]
    MessageCount_iter_keys[of db dsid thr] e
  show ?thesis by blast
qed

theorem MessageCount_counts_index_keys_witness:
  "db_wf empty_db
   \<and> StoreData empty_db ''h1'' [GString ''SBER'', GString ''100''] [''string'', ''uint256'']
        [''ticker'', ''price''] 1700000001 1 = Inr fixture_db1
   \<and> length (build_dataMap [''ticker'', ''price''] [GString ''SBER'', GString ''100'']) = 2
   \<and> length (indexKeys 1 1700000001 ''h1''
               (build_dataMap [''ticker'', ''price''] [GString ''SBER'', GString ''100''])) = 3
   \<and> MessageCount (GetDataStructureStats fixture_db1 1 2) = 3
   \<and> length (GetAllMessages fixture_db1 1 1 10) = 1"
proof -
  have wf: "db_wf empty_db" by (simp add: db_wf_def empty_db_def)
  note T = MessageCount_counts_index_keys[where dsid = 1 and ts = 1700000001 and hash = "''h1''"
      and meta = "[''ticker'', ''price'']" and dat = "[GString ''SBER'', GString ''100'']"
      and db = empty_db and thr = 2 and ds = "[''string'', ''uint256'']" and db' = fixture_db1]
  from T have l: "length (indexKeys 1 1700000001 ''h1''
               (build_dataMap [''ticker'', ''price''] [GString ''SBER'', GString ''100'']))
             = length (build_dataMap [''ticker'', ''price''] [GString ''SBER'', GString ''100'']) + 1"
    by blast
  from T wf fixture_db1_stored
  have c: "MessageCount (GetDataStructureStats fixture_db1 1 2)
       = int (card (set (iter_keys empty_db (indexPrefix @ Itoa 1 @ '':''))
                    \<union> set (indexKeys 1 1700000001 ''h1''
               (build_dataMap [''ticker'', ''price''] [GString ''SBER'', GString ''100'']))))"
    by blast
  have e: "iter_keys empty_db (indexPrefix @ Itoa 1 @ '':'') = []"
    by (simp add: iter_keys_def empty_db_def)
  from c have c': "MessageCount (GetDataStructureStats fixture_db1 1 2) = 3"
    unfolding e fixture_dataMap1 fixture_indexKeys1 by simp
  from l c' wf fixture_db1_stored show ?thesis
    by (simp add: fixture_dataMap1 fixture_all1)
qed

section \<open>Claims about the message builder\<close>

text \<open>
  Claim C1. Every request that \<open>BuildMessage\<close> returns at a clock reading in the
  non-negative range of \<open>int64\<close> has as its hash the lowercase hex text of Keccak-256
  of the packed bytes: the JSON text of the request's own \<open>data\<close>, with no length
  prefix, followed by the request's own timestamp as 32 bytes, big-endian, zero-padded
  on the left.
\<close>

theorem BuildMessage_hash:
  assumes "0 \<le> now" "now < 2 ^ 63" "BuildMessage l b price now = Returned req"
  shows "\<exists>jsonData. json_Marshal l (req_Data req) = Some jsonData
           \<and> req_Hash req
               = hex_encode (Keccak256 l (jsonData @ be32 (nat (req_Timestamp req))))
           \<and> length (be32 (nat (req_Timestamp req))) = 32
           \<and> set (req_Hash req) \<subseteq> set ''0123456789abcdef''
           \<and> req_Timestamp req = now"
proof -
  from assms(3) obtain priceScaled hash where
    w: "FloatToWei price = Returned priceScaled"
    and h: "calculateHash l (map (\<lambda>f. fieldValues b priceScaled now (Name f)) (Structure b)) now
              = Returned hash"
    and r: "req_Hash req = hash" "req_Timestamp req = now"
           "req_Data req = map (\<lambda>f. fieldValues b priceScaled now (Name f)) (Structure b)"
    by (auto simp: BuildMessage_def Let_def split: result.splits)
  from h obtain js where js: "json_Marshal l (req_Data req) = Some js"
    by (auto simp: calculateHash_def r split: option.splits)
  from assms(2) have "now < 2 ^ 256"
    by (rule less_le_trans) simp
  from calculateHash_spec[OF assms(1) this js] h
  have "hash = hex_encode (Keccak256 l (spec_packed js now))"
    by (simp add: r)
  then have "req_Hash req = hex_encode (Keccak256 l (js @ be32 (nat (req_Timestamp req))))"
    by (simp add: r spec_packed_def)
  moreover have "length (be32 (nat (req_Timestamp req))) = 32"
    by (simp add: be32_def)
  moreover have "set (req_Hash req) \<subseteq> set ''0123456789abcdef''"
    unfolding calculation(1) by (rule hex_encode_lowercase)
  ultimately show ?thesis using js r(2) by blast
qed

theorem BuildMessage_hash_witness:
  "(0::int) \<le> 1700000000 \<and> (1700000000::int) < 2 ^ 63
   \<and> BuildMessage fixture_lib fixture_builder (Finite False 3 0) 1700000000 = Returned fixture_built
   \<and> (\<exists>jsonData. json_Marshal fixture_lib (req_Data fixture_built) = Some jsonData
          \<and> req_Hash fixture_built
               = hex_encode (Keccak256 fixture_lib (jsonData @ be32 (nat (req_Timestamp fixture_built))))
          \<and> length (be32 (nat (req_Timestamp fixture_built))) = 32
          \<and> set (req_Hash fixture_built) \<subseteq> set ''0123456789abcdef''
          \<and> req_Timestamp fixture_built = 1700000000)"
proof -
  have a: "(0::int) \<le> 1700000000" and b: "(1700000000::int) < 2 ^ 63" by simp_all
  from BuildMessage_hash[OF a b fixture_built_run] a b fixture_built_run
  show ?thesis by blast
qed

text \<open>
  Claim C5 as stated fails: the product is a \<open>big.Float\<close> of 64 bits of precision, so
  it is rounded before it is truncated. For the \<open>float64\<close> nearest to 300.1, which is
  \<open>2639707515964621 * 2 ^ -43\<close>, \<open>FloatToWei\<close> returns 300100000000000022752 and the
  floor of the exact product is 300100000000000022737.
\<close>

theorem FloatToWei_not_exact_floor_counterexample:
  "(2639707515964621::nat) < 2 ^ 53
   \<and> FloatToWei (Finite False 2639707515964621 (- 43)) = Returned 300100000000000022752
   \<and> \<lfloor>float64_value False 2639707515964621 (- 43) * 10 ^ 18\<rfloor> = 300100000000000022737"
proof -
  have a: "(2639707515964621::nat) < 2 ^ 53" by simp
  have b: "FloatToWei (Finite False 2639707515964621 (- 43)) = Returned 300100000000000022752"
    unfolding FloatToWei_finite round_to_counterexample by (simp add: Float_Int_def)
  have c: "\<lfloor>float64_value False 2639707515964621 (- 43) * 10 ^ 18\<rfloor> = 300100000000000022737"
    unfolding float64_value_wei floor_scaled by simp
  from a b c show ?thesis by blast
qed

text \<open>
  Claim C5, amended. For a finite non-negative price \<open>p = m * 2 ^ e\<close>, \<open>FloatToWei(p)\<close>
  is the floor of the product \<open>m * 10 ^ 18\<close> rounded to 64 significant bits (to nearest,
  ties to even) and scaled by \<open>2 ^ e\<close>. It is \<open>floor(p * 10 ^ 18)\<close> whenever
  \<open>m * 10 ^ 18\<close> has at most 64 significant bits, and the rounded product differs from
  \<open>p * 10 ^ 18\<close> by at most \<open>p * 10 ^ 18 / 2 ^ 64\<close>.
\<close>

theorem FloatToWei_rounds_product_to_64_bits:
  "FloatToWei (Finite False m e)
     = Returned \<lfloor>real (round_to 64 (m * 10 ^ 18)) * 2 powr real_of_int e\<rfloor>
   \<and> (bitlen (m * 10 ^ 18) \<le> 64 \<or> 2 ^ (bitlen (m * 10 ^ 18) - 64) dvd m * 10 ^ 18
        \<longrightarrow> FloatToWei (Finite False m e) = Returned \<lfloor>float64_value False m e * 10 ^ 18\<rfloor>)
   \<and> \<bar>real (round_to 64 (m * 10 ^ 18)) * 2 powr real_of_int e - float64_value False m e * 10 ^ 18\<bar>
        \<le> float64_value False m e * 10 ^ 18 / 2 ^ 64"
proof -
  let ?p = "m * 10 ^ 18"
  let ?s = "2 powr real_of_int e"
  have a: "FloatToWei (Finite False m e) = Returned \<lfloor>real (round_to 64 ?p) * ?s\<rfloor>"
    by (rule FloatToWei_floor)
  have b: "bitlen ?p \<le> 64 \<or> 2 ^ (bitlen ?p - 64) dvd ?p
        \<longrightarrow> FloatToWei (Finite False m e) = Returned \<lfloor>float64_value False m e * 10 ^ 18\<rfloor>"
  proof
    assume "bitlen ?p \<le> 64 \<or> 2 ^ (bitlen ?p - 64) dvd ?p"
    then have "round_to 64 ?p = ?p" by (rule round_to_exact)
    with a show "FloatToWei (Finite False m e) = Returned \<lfloor>float64_value False m e * 10 ^ 18\<rfloor>"
      by (simp only: float64_value_wei)
  qed
  have pos: "?s > 0" by simp
  have d: "real (round_to 64 ?p) * ?s - real ?p * ?s = (real (round_to 64 ?p) - real ?p) * ?s"
    by (rule left_diff_distrib[symmetric])
  have sa: "\<bar>?s\<bar> = ?s" using pos by (rule abs_of_pos)
  have e1: "\<bar>real (round_to 64 ?p) * ?s - real ?p * ?s\<bar> = \<bar>real (round_to 64 ?p) - real ?p\<bar> * ?s"
    by (simp only: d abs_mult sa)
  have e2: "\<bar>real (round_to 64 ?p) - real ?p\<bar> * ?s \<le> real ?p / 2 ^ 64 * ?s"
    by (rule mult_right_mono[OF round_to_relative_error less_imp_le[OF pos]])
  have e3: "real ?p / 2 ^ 64 * ?s = real ?p * ?s / 2 ^ 64"
    by (rule times_divide_eq_left)
  from e1 e2 e3 have "\<bar>real (round_to 64 ?p) * ?s - real ?p * ?s\<bar> \<le> real ?p * ?s / 2 ^ 64"
    by linarith
  then have c: "\<bar>real (round_to 64 ?p) * ?s - float64_value False m e * 10 ^ 18\<bar>
        \<le> float64_value False m e * 10 ^ 18 / 2 ^ 64"
    by (simp only: float64_value_wei)
  from a b c show ?thesis by blast
qed

theorem FloatToWei_rounds_product_to_64_bits_witness:
  "bitlen (3 * 10 ^ 18) \<le> 64
   \<and> FloatToWei (Finite False 3 0) = Returned \<lfloor>float64_value False 3 0 * 10 ^ 18\<rfloor>
   \<and> \<lfloor>float64_value False 3 0 * 10 ^ 18\<rfloor> = 3000000000000000000"
proof -
  have h: "bitlen (3 * 10 ^ 18) \<le> 64" unfolding bitlen_le_iff by simp
  from FloatToWei_rounds_product_to_64_bits[of 3 0] h
  have r: "FloatToWei (Finite False 3 0) = Returned \<lfloor>float64_value False 3 0 * 10 ^ 18\<rfloor>"
    by blast
  have v: "\<lfloor>float64_value False 3 0 * 10 ^ 18\<rfloor> = 3000000000000000000"
    by (simp add: float64_value_def)
  from h r v show ?thesis by blast
qed

end
